theory Spec2Isabelle
  imports Complex_Main
begin

section \<open>Python values, errors and strings\<close>

text \<open>
  The pipeline of \<^verbatim>\<open>backend/agents/nodes.py\<close> works on pandas data frames and emits
  nested dicts. Floating-point numbers are idealised as reals, with the not-a-number value
  kept as a separate constructor, since the code tests for it and lets it through.
\<close>

datatype pyfloat = Nan | Fl real

datatype pyval =
    PyNone
  | PyBool bool
  | PyInt int
  | PyFloat pyfloat
  | PyStr string
  | NpInt int
  | NpFloat pyfloat
  | NdArray "pyval list"
  | PyList "pyval list"
  | PyTuple "pyval list"
  | PyDict "(pyval \<times> pyval) list"

datatype error =
    TypeError string
  | ValueError string
  | KeyError string
  | OSError string
  | HTTPException nat string

text \<open>\<^verbatim>\<open>str(e)\<close>: a KeyError prints its key quoted, an HTTPException as status and detail.\<close>

fun nat_digits :: "nat \<Rightarrow> nat \<Rightarrow> string" where
  "nat_digits 0 n = []"
| "nat_digits (Suc fuel) n =
     (if n < 10 then [char_of (48 + n)]
      else nat_digits fuel (n div 10) @ [char_of (48 + n mod 10)])"

definition str_of_nat :: "nat \<Rightarrow> string" where
  "str_of_nat n = nat_digits (Suc n) n"

fun str_of_error :: "error \<Rightarrow> string" where
  "str_of_error (TypeError m) = m"
| "str_of_error (ValueError m) = m"
| "str_of_error (KeyError k) = [CHR 0x27] @ k @ [CHR 0x27]"
| "str_of_error (OSError m) = m"
| "str_of_error (HTTPException code detail) = str_of_nat code @ '': '' @ detail"

definition endswith :: "string \<Rightarrow> string \<Rightarrow> bool" where
  "endswith s suf \<longleftrightarrow> length suf \<le> length s \<and> drop (length s - length suf) s = suf"

text \<open>\<^verbatim>\<open>str.strip()\<close> and \<^verbatim>\<open>str.lower()\<close> on the ASCII range.\<close>

definition is_space :: "char \<Rightarrow> bool" where
  "is_space c \<longleftrightarrow> (let n = (of_char c :: nat) in (9 \<le> n \<and> n \<le> 13) \<or> (28 \<le> n \<and> n \<le> 32))"

definition strip :: "string \<Rightarrow> string" where
  "strip s = rev (dropWhile is_space (rev (dropWhile is_space s)))"

definition lower_char :: "char \<Rightarrow> char" where
  "lower_char c = (let n = (of_char c :: nat) in if 65 \<le> n \<and> n \<le> 90 then char_of (n + 32) else c)"

definition lower :: "string \<Rightarrow> string" where
  "lower s = map lower_char s"

text \<open>Python compares two strings by code point, lexicographically.\<close>

fun str_less :: "string \<Rightarrow> string \<Rightarrow> bool" where
  "str_less [] [] = False"
| "str_less [] (y # ys) = True"
| "str_less (x # xs) [] = False"
| "str_less (x # xs) (y # ys) =
     ((of_char x :: nat) < of_char y \<or> (x = y \<and> str_less xs ys))"

text \<open>\<^verbatim>\<open>os.path.basename\<close>: what follows the last slash.\<close>

definition basename :: "string \<Rightarrow> string" where
  "basename p = rev (takeWhile (\<lambda>c. c \<noteq> CHR ''/'') (rev p))"

definition dirname :: "string \<Rightarrow> string" where
  "dirname p =
     (let hd_part = rev (dropWhile (\<lambda>c. c \<noteq> CHR ''/'') (rev p));
          stripped = rev (dropWhile (\<lambda>c. c = CHR ''/'') (rev hd_part))
      in if stripped = [] then hd_part else stripped)"

definition path_join :: "string \<Rightarrow> string \<Rightarrow> string" where
  "path_join a b =
     (if b \<noteq> [] \<and> hd b = CHR ''/'' then b
      else if a = [] \<or> last a = CHR ''/'' then a @ b
      else a @ ''/'' @ b)"

subsection \<open>Dicts\<close>

text \<open>A Python dict keeps insertion order; assigning to a present key replaces its value in place.\<close>

fun dict_set :: "('k \<times> 'v) list \<Rightarrow> 'k \<Rightarrow> 'v \<Rightarrow> ('k \<times> 'v) list" where
  "dict_set [] k v = [(k, v)]"
| "dict_set ((k', v') # d) k v = (if k' = k then (k, v) # d else (k', v') # dict_set d k v)"

fun py_get :: "pyval \<Rightarrow> string \<Rightarrow> pyval option" where
  "py_get (PyDict d) k = map_of d (PyStr k)"
| "py_get _ k = None"

subsection \<open>\<^verbatim>\<open>convert_numpy\<close>\<close>

fun np_item :: "pyval \<Rightarrow> pyval" where
  "np_item (NpInt i) = PyInt i"
| "np_item (NpFloat f) = PyFloat f"
| "np_item v = v"

fun convert_numpy :: "pyval \<Rightarrow> pyval" where
  "convert_numpy (NpInt i) = PyInt i"
| "convert_numpy (NpFloat f) = PyFloat f"
| "convert_numpy (NdArray xs) = PyList (map np_item xs)"
| "convert_numpy (PyDict d) = PyDict (map (\<lambda>(k, v). (k, convert_numpy v)) d)"
| "convert_numpy (PyList xs) = PyList (map convert_numpy xs)"
| "convert_numpy (PyTuple xs) = PyTuple (map convert_numpy xs)"
| "convert_numpy v = v"

section \<open>Data frames\<close>

text \<open>
  A cell is null (NaN/None), an integer, a float or a text. A column carries its pandas
  dtype; a frame carries its index labels, which row filters keep.
\<close>

datatype cell = CNaN | CInt int | CFloat real | CStr string

datatype dtype = Int64 | Float64 | Object

record series =
  s_name :: string
  s_dtype :: dtype
  s_values :: "cell list"

record dataframe =
  df_index :: "nat list"
  df_columns :: "series list"

definition nrows :: "dataframe \<Rightarrow> nat" where
  "nrows df = length (df_index df)"

definition ncols :: "dataframe \<Rightarrow> nat" where
  "ncols df = length (df_columns df)"

definition shape :: "dataframe \<Rightarrow> pyval" where
  "shape df = PyTuple [PyInt (int (nrows df)), PyInt (int (ncols df))]"

definition df_empty :: "dataframe \<Rightarrow> bool" where
  "df_empty df \<longleftrightarrow> nrows df = 0 \<or> ncols df = 0"

definition well_formed :: "dataframe \<Rightarrow> bool" where
  "well_formed df \<longleftrightarrow> list_all (\<lambda>c. length (s_values c) = nrows df) (df_columns df)"

definition isnull :: "cell \<Rightarrow> bool" where
  "isnull x \<longleftrightarrow> x = CNaN"

definition row_at :: "dataframe \<Rightarrow> nat \<Rightarrow> cell list" where
  "row_at df i = map (\<lambda>c. s_values c ! i) (df_columns df)"

definition df_rows :: "dataframe \<Rightarrow> cell list list" where
  "df_rows df = map (row_at df) [0..<nrows df]"

text \<open>Boolean-mask indexing \<^verbatim>\<open>df[mask]\<close>.\<close>

definition select :: "bool list \<Rightarrow> 'a list \<Rightarrow> 'a list" where
  "select bs xs = map snd (filter fst (zip bs xs))"

definition df_filter :: "bool list \<Rightarrow> dataframe \<Rightarrow> dataframe" where
  "df_filter bs df =
     df\<lparr>df_index := select bs (df_index df),
        df_columns := map (\<lambda>c. c\<lparr>s_values := select bs (s_values c)\<rparr>) (df_columns df)\<rparr>"

definition get_column :: "dataframe \<Rightarrow> string \<Rightarrow> series option" where
  "get_column df n = find (\<lambda>c. s_name c = n) (df_columns df)"

definition is_numeric :: "series \<Rightarrow> bool" where
  "is_numeric c \<longleftrightarrow> s_dtype c = Int64 \<or> s_dtype c = Float64"

definition str_of_dtype :: "dtype \<Rightarrow> string" where
  "str_of_dtype d = (case d of Int64 \<Rightarrow> ''int64'' | Float64 \<Rightarrow> ''float64'' | Object \<Rightarrow> ''object'')"

text \<open>The numeric value of a cell, when it has one.\<close>

fun num_of :: "cell \<Rightarrow> real option" where
  "num_of (CInt i) = Some (of_int i)"
| "num_of (CFloat r) = Some r"
| "num_of _ = None"

definition numbers :: "cell list \<Rightarrow> real list" where
  "numbers xs = List.map_filter num_of xs"

fun py_of_cell :: "cell \<Rightarrow> pyval" where
  "py_of_cell CNaN = PyFloat Nan"
| "py_of_cell (CInt i) = PyInt i"
| "py_of_cell (CFloat r) = PyFloat (Fl r)"
| "py_of_cell (CStr s) = PyStr s"

section \<open>What the pipeline takes from its libraries\<close>

text \<open>
  The file readers, the text-to-number parser behind \<^verbatim>\<open>pd.to_numeric\<close>, the CSV writer,
  scikit-learn's isolation forest and the clock are not code of this repository: the model
  takes them as parameters. A reader or the writer may raise; the forest returns the mask
  \<^verbatim>\<open>preds == -1\<close> or raises. The same holds for what the last three nodes of the graph
  and the upload endpoint call: the chart renderer, the language model (given the three
  reports its prompt is built from), the SQL text built from the cleaned frame, the
  storing of an upload, and the upload directory, time stamp and database id.
\<close>

datatype number = PInt int | PFloat real

record env =
  read_csv :: "string \<Rightarrow> error + dataframe"
  read_excel :: "string \<Rightarrow> error + dataframe"
  parse_number :: "string \<Rightarrow> number option"
  to_csv :: "string \<Rightarrow> dataframe \<Rightarrow> error option"
  isolation_forest :: "real list list \<Rightarrow> error + bool list"
  current_year :: int
  render_charts :: "dataframe \<Rightarrow> int \<Rightarrow> error + pyval list"
  llm_invoke :: "pyval \<Rightarrow> pyval \<Rightarrow> pyval \<Rightarrow> error + string"
  mock_insights :: "pyval \<Rightarrow> pyval \<Rightarrow> string"
  sql_text :: "dataframe \<Rightarrow> string \<Rightarrow> error + string"
  save_upload :: "string \<Rightarrow> error option"
  upload_dir :: string
  timestamp :: string
  next_id :: int

record agent_state =
  dataset_id :: int
  file_path :: string
  filename :: string
  raw_data :: "dataframe option"
  cleaned_data :: "dataframe option"
  cleaning_report :: "pyval option"
  statistics :: "pyval option"
  anomalies :: "pyval option"
  visualizations :: "pyval list"
  insights :: "string option"
  sql_queries :: "string option"
  errors :: "string list"
  status :: string

section \<open>The Cleaner: \<^verbatim>\<open>clean_data_node\<close>\<close>

subsection \<open>The pandas operations it calls\<close>

text \<open>\<^verbatim>\<open>df.dropna(how='all')\<close> keeps the rows that have a non-null cell.\<close>

definition dropna_all :: "dataframe \<Rightarrow> dataframe" where
  "dropna_all df = df_filter (map (list_ex (\<lambda>x. \<not> isnull x)) (df_rows df)) df"

definition applymap :: "(cell \<Rightarrow> cell) \<Rightarrow> dataframe \<Rightarrow> dataframe" where
  "applymap f df =
     df\<lparr>df_columns := map (\<lambda>c. c\<lparr>s_values := map f (s_values c)\<rparr>) (df_columns df)\<rparr>"

text \<open>\<^verbatim>\<open>lambda x: x.strip() if isinstance(x, str) else x\<close>\<close>

fun strip_cell :: "cell \<Rightarrow> cell" where
  "strip_cell (CStr s) = CStr (strip s)"
| "strip_cell x = x"

text \<open>
  \<^verbatim>\<open>pd.to_numeric(series, errors='coerce')\<close>: a text that does not parse becomes NaN, numbers
  stay; the result is int64 when every cell is an integer and float64 otherwise.
\<close>

fun coerce_cell :: "(string \<Rightarrow> number option) \<Rightarrow> cell \<Rightarrow> cell" where
  "coerce_cell p (CStr s) =
     (case p s of None \<Rightarrow> CNaN | Some (PInt i) \<Rightarrow> CInt i | Some (PFloat r) \<Rightarrow> CFloat r)"
| "coerce_cell p x = x"

fun is_int_cell :: "cell \<Rightarrow> bool" where
  "is_int_cell (CInt i) = True"
| "is_int_cell _ = False"

fun to_float :: "cell \<Rightarrow> cell" where
  "to_float (CInt i) = CFloat (of_int i)"
| "to_float x = x"

definition to_numeric :: "(string \<Rightarrow> number option) \<Rightarrow> series \<Rightarrow> series" where
  "to_numeric p c =
     (let ys = map (coerce_cell p) (s_values c)
      in if list_all is_int_cell ys then c\<lparr>s_dtype := Int64, s_values := ys\<rparr>
         else c\<lparr>s_dtype := Float64, s_values := map to_float ys\<rparr>)"

definition notna_sum :: "series \<Rightarrow> nat" where
  "notna_sum c = length (filter (\<lambda>x. \<not> isnull x) (s_values c))"

definition isnull_sum :: "series \<Rightarrow> nat" where
  "isnull_sum c = length (filter isnull (s_values c))"

text \<open>
  \<^verbatim>\<open>df.duplicated()\<close> marks a row that equals an earlier one, \<^verbatim>\<open>duplicated(keep=False)\<close>
  every row that occurs more than once; on an empty frame both return an empty mask.
  \<^verbatim>\<open>drop_duplicates\<close> is \<^verbatim>\<open>df[~df.duplicated()]\<close>, and a copy of an empty frame.
\<close>

fun seen_before :: "'a list \<Rightarrow> 'a list \<Rightarrow> bool list" where
  "seen_before seen [] = []"
| "seen_before seen (r # rs) = (r \<in> set seen) # seen_before (r # seen) rs"

definition duplicated :: "dataframe \<Rightarrow> bool list" where
  "duplicated df = (if df_empty df then [] else seen_before [] (df_rows df))"

definition duplicated_keep_false :: "dataframe \<Rightarrow> bool list" where
  "duplicated_keep_false df =
     (if df_empty df then [] else map (\<lambda>r. 1 < count_list (df_rows df) r) (df_rows df))"

definition mask_sum :: "bool list \<Rightarrow> nat" where
  "mask_sum bs = length (filter id bs)"

definition drop_duplicates :: "dataframe \<Rightarrow> dataframe" where
  "drop_duplicates df = (if df_empty df then df else df_filter (map Not (duplicated df)) df)"

text \<open>\<^verbatim>\<open>Series.median()\<close> skips nulls and is NaN when nothing is left.\<close>

definition median_of :: "real list \<Rightarrow> real option" where
  "median_of xs =
     (let s = sort xs; n = length s
      in if n = 0 then None
         else if odd n then Some (s ! (n div 2))
         else Some ((s ! (n div 2 - 1) + s ! (n div 2)) / 2))"

definition median :: "series \<Rightarrow> cell" where
  "median c = (case median_of (numbers (s_values c)) of None \<Rightarrow> CNaN | Some m \<Rightarrow> CFloat m)"

definition fillna :: "cell \<Rightarrow> series \<Rightarrow> series" where
  "fillna v c = c\<lparr>s_values := map (\<lambda>x. if isnull x then v else x) (s_values c)\<rparr>"

text \<open>
  \<^verbatim>\<open>Series.mode()\<close>: the most frequent non-null values, sorted; when the values cannot be
  compared with each other pandas leaves them in first-seen order.
\<close>

fun cell_less :: "cell \<Rightarrow> cell \<Rightarrow> bool option" where
  "cell_less (CStr a) (CStr b) = Some (str_less a b)"
| "cell_less x y =
     (case (num_of x, num_of y) of (Some a, Some b) \<Rightarrow> Some (a < b) | _ \<Rightarrow> None)"

fun insert_sorted :: "cell \<Rightarrow> cell list \<Rightarrow> cell list" where
  "insert_sorted x [] = [x]"
| "insert_sorted x (y # ys) =
     (if cell_less y x = Some True then y # insert_sorted x ys else x # y # ys)"

fun is_str_cell :: "cell \<Rightarrow> bool" where
  "is_str_cell (CStr s) = True"
| "is_str_cell _ = False"

definition safe_sort :: "cell list \<Rightarrow> cell list" where
  "safe_sort xs =
     (if list_all is_str_cell xs \<or> list_all (\<lambda>x. num_of x \<noteq> None) xs
      then foldr insert_sorted xs [] else xs)"

definition mode :: "series \<Rightarrow> cell list" where
  "mode c =
     (let xs = filter (\<lambda>x. \<not> isnull x) (s_values c);
          ds = rev (remdups (rev xs));
          top = fold max (map (count_list xs) ds) 0
      in safe_sort (filter (\<lambda>x. count_list xs x = top) ds))"

subsection \<open>The steps of the node\<close>

definition load_data :: "env \<Rightarrow> string \<Rightarrow> error + dataframe" where
  "load_data env p = (if endswith p ''.csv'' then read_csv env p else read_excel env p)"

definition coerce_column :: "env \<Rightarrow> series \<Rightarrow> series" where
  "coerce_column env c =
     (if s_dtype c = Object then
        (let numeric_series = to_numeric (parse_number env) c
         in if notna_sum numeric_series > 0 then numeric_series else c)
      else c)"

text \<open>Steps 1 to 3: the frame \<^verbatim>\<open>df\<close> that the report and the deduplication read.\<close>

definition prepare :: "env \<Rightarrow> dataframe \<Rightarrow> dataframe" where
  "prepare env raw =
     (let df = dropna_all raw;
          df = applymap strip_cell df
      in df\<lparr>df_columns := map (coerce_column env) (df_columns df)\<rparr>)"

definition impute_column :: "series \<Rightarrow> series" where
  "impute_column c =
     (if s_dtype c = Float64 \<or> s_dtype c = Int64 then fillna (median c) c
      else
        (let mode_val = (case mode c of [] \<Rightarrow> CStr ''Unknown'' | v # _ \<Rightarrow> v)
         in fillna mode_val c))"

definition impute :: "dataframe \<Rightarrow> dataframe" where
  "impute df = df\<lparr>df_columns := map impute_column (df_columns df)\<rparr>"

definition report_before :: "dataframe \<Rightarrow> (pyval \<times> pyval) list" where
  "report_before df =
     [(PyStr ''original_shape'', shape df),
      (PyStr ''missing_values'',
         PyDict (map (\<lambda>c. (PyStr (s_name c), NpInt (int (isnull_sum c)))) (df_columns df))),
      (PyStr ''duplicates'', PyInt (int (mask_sum (duplicated df)))),
      (PyStr ''data_types'',
         PyDict (map (\<lambda>c. (PyStr (s_name c), PyStr (str_of_dtype (s_dtype c)))) (df_columns df)))]"

definition clean_failed :: "agent_state \<Rightarrow> error \<Rightarrow> agent_state" where
  "clean_failed st e =
     st\<lparr>errors := errors st @ [''Data cleaning error: '' @ str_of_error e], status := ''failed''\<rparr>"

definition clean_data_node :: "env \<Rightarrow> agent_state \<Rightarrow> agent_state" where
  "clean_data_node env st =
     (case load_data env (file_path st) of
        Inl e \<Rightarrow> clean_failed st e
      | Inr raw \<Rightarrow>
          (let st = st\<lparr>raw_data := Some raw\<rparr>;
               df = prepare env raw;
               cleaning_report = report_before df;
               df_cleaned = impute (drop_duplicates df);
               cleaning_report = dict_set cleaning_report (PyStr ''cleaned_shape'') (shape df_cleaned);
               cleaning_report = dict_set cleaning_report (PyStr ''rows_removed'')
                                   (PyInt (int (nrows df) - int (nrows df_cleaned)));
               cleaned_filename = ''cleaned_'' @ basename (file_path st);
               cleaned_file_path = path_join (dirname (file_path st)) cleaned_filename
           in case to_csv env cleaned_file_path df_cleaned of
                Some e \<Rightarrow> clean_failed st e
              | None \<Rightarrow>
                  (let cleaning_report =
                         dict_set cleaning_report (PyStr ''cleaned_file_path'') (PyStr cleaned_filename)
                   in st\<lparr>cleaned_data := Some df_cleaned,
                         cleaning_report := Some (convert_numpy (PyDict cleaning_report)),
                         status := ''cleaning_completed''\<rparr>)))"

section \<open>The Statistics Summarizer: \<^verbatim>\<open>generate_statistics_node\<close>\<close>

definition select_dtypes_number :: "dataframe \<Rightarrow> series list" where
  "select_dtypes_number df = filter is_numeric (df_columns df)"

definition select_dtypes_object :: "dataframe \<Rightarrow> series list" where
  "select_dtypes_object df = filter (\<lambda>c. s_dtype c = Object) (df_columns df)"

text \<open>
  \<^verbatim>\<open>Series.quantile(q)\<close> with linear interpolation, nulls skipped: position \<open>(n - 1) * q\<close> in
  the sorted values, interpolating between its two neighbours.
\<close>

definition quantile_of :: "real list \<Rightarrow> real \<Rightarrow> real option" where
  "quantile_of xs q =
     (let s = sort xs; n = length s
      in if n = 0 then None
         else
           (let h = real (n - 1) * q;
                lo = nat \<lfloor>h\<rfloor>;
                hi = min (lo + 1) (n - 1)
            in Some (s ! lo + (h - real lo) * (s ! hi - s ! lo))))"

definition quantile :: "series \<Rightarrow> real \<Rightarrow> real option" where
  "quantile c q = quantile_of (numbers (s_values c)) q"

definition mean_of :: "real list \<Rightarrow> real option" where
  "mean_of xs = (if xs = [] then None else Some (sum_list xs / real (length xs)))"

definition std_of :: "real list \<Rightarrow> real option" where
  "std_of xs =
     (if length xs \<le> 1 then None
      else
        (let m = sum_list xs / real (length xs)
         in Some (sqrt (sum_list (map (\<lambda>x. (x - m)\<^sup>2) xs) / real (length xs - 1)))))"

definition min_of :: "real list \<Rightarrow> real option" where
  "min_of xs = (case xs of [] \<Rightarrow> None | x # ys \<Rightarrow> Some (fold min ys x))"

definition max_of :: "real list \<Rightarrow> real option" where
  "max_of xs = (case xs of [] \<Rightarrow> None | x # ys \<Rightarrow> Some (fold max ys x))"

definition np_float :: "real option \<Rightarrow> pyval" where
  "np_float r = (case r of None \<Rightarrow> NpFloat Nan | Some v \<Rightarrow> NpFloat (Fl v))"

definition describe_column :: "series \<Rightarrow> pyval" where
  "describe_column c =
     (let xs = numbers (s_values c)
      in PyDict
        [(PyStr ''count'', NpFloat (Fl (real (length xs)))),
         (PyStr ''mean'', np_float (mean_of xs)),
         (PyStr ''std'', np_float (std_of xs)),
         (PyStr ''min'', np_float (min_of xs)),
         (PyStr ''25%'', np_float (quantile_of xs (1/4))),
         (PyStr ''50%'', np_float (quantile_of xs (1/2))),
         (PyStr ''75%'', np_float (quantile_of xs (3/4))),
         (PyStr ''max'', np_float (max_of xs))])"

definition describe :: "series list \<Rightarrow> pyval" where
  "describe cols = PyDict (map (\<lambda>c. (PyStr (s_name c), describe_column c)) cols)"

text \<open>
  \<^verbatim>\<open>DataFrame.corr()\<close>: Pearson's coefficient of each pair of columns over the rows where both
  are present; NaN when no row is left or when a sum of squared deviations is zero.
\<close>

definition pair_valid :: "cell list \<Rightarrow> cell list \<Rightarrow> (real \<times> real) list" where
  "pair_valid xs ys =
     List.map_filter
       (\<lambda>(x, y). case (num_of x, num_of y) of (Some a, Some b) \<Rightarrow> Some (a, b) | _ \<Rightarrow> None)
       (zip xs ys)"

definition pearson :: "(real \<times> real) list \<Rightarrow> pyfloat" where
  "pearson ps =
     (let nobs = length ps
      in if nobs < 1 then Nan
         else
           (let meanx = sum_list (map fst ps) / real nobs;
                meany = sum_list (map snd ps) / real nobs;
                ssqdx = sum_list (map (\<lambda>(x, y). (x - meanx)\<^sup>2) ps);
                ssqdy = sum_list (map (\<lambda>(x, y). (y - meany)\<^sup>2) ps);
                covxy = sum_list (map (\<lambda>(x, y). (x - meanx) * (y - meany)) ps);
                divisor = sqrt (ssqdx * ssqdy)
            in if divisor \<noteq> 0 then Fl (covxy / divisor) else Nan))"

definition corr_entry :: "series \<Rightarrow> series \<Rightarrow> pyfloat" where
  "corr_entry a b = pearson (pair_valid (s_values a) (s_values b))"

text \<open>\<^verbatim>\<open>corr_matrix.to_dict()\<close>: column name to (row name to coefficient).\<close>

definition corr :: "series list \<Rightarrow> pyval" where
  "corr cols =
     PyDict (map (\<lambda>a. (PyStr (s_name a),
                        PyDict (map (\<lambda>b. (PyStr (s_name b), NpFloat (corr_entry b a))) cols)))
                 cols)"

text \<open>\<^verbatim>\<open>value_counts()\<close>: the non-null values with their counts, most frequent first.\<close>

definition value_counts :: "series \<Rightarrow> (cell \<times> nat) list" where
  "value_counts c =
     (let xs = filter (\<lambda>x. \<not> isnull x) (s_values c);
          ds = rev (remdups (rev xs))
      in sort_key (\<lambda>(d, n). - int n) (map (\<lambda>d. (d, count_list xs d)) ds))"

definition nunique :: "series \<Rightarrow> nat" where
  "nunique c = length (remdups (filter (\<lambda>x. \<not> isnull x) (s_values c)))"

definition categorical_entry :: "series \<Rightarrow> pyval" where
  "categorical_entry c =
     PyDict
       [(PyStr ''unique_values'', PyInt (int (nunique c))),
        (PyStr ''top_values'',
           PyDict (map (\<lambda>(d, n). (py_of_cell d, NpInt (int n))) (take 5 (value_counts c))))]"

definition statistics_of :: "dataframe \<Rightarrow> pyval" where
  "statistics_of df =
     (let numeric_cols = select_dtypes_number df;
          categorical_cols = select_dtypes_object df
      in PyDict
        [(PyStr ''shape'', shape df),
         (PyStr ''columns'', PyList (map (\<lambda>c. PyStr (s_name c)) (df_columns df))),
         (PyStr ''numeric_summary'',
            (if length numeric_cols > 0 then describe numeric_cols else PyDict [])),
         (PyStr ''categorical_summary'',
            PyDict (fold (\<lambda>c d. dict_set d (PyStr (s_name c)) (categorical_entry c))
                         categorical_cols [])),
         (PyStr ''correlations'',
            (if length numeric_cols > 0 \<and> length numeric_cols > 1 then corr numeric_cols
             else PyDict []))])"

definition generate_statistics_node :: "agent_state \<Rightarrow> agent_state" where
  "generate_statistics_node st =
     (case cleaned_data st of
        None \<Rightarrow>
          st\<lparr>errors := errors st @
                [''Statistics generation error: '' @ str_of_error (KeyError ''cleaned_data'')]\<rparr>
      | Some df \<Rightarrow>
          st\<lparr>statistics := Some (convert_numpy (statistics_of df)),
             status := ''statistics_completed''\<rparr>)"

section \<open>The Anomaly Detector: \<^verbatim>\<open>detect_anomalies_node\<close>\<close>

subsection \<open>Comparisons that may raise\<close>

text \<open>
  Comparing a column with a number or with another column is cell by cell: a null cell
  compares false, two numbers and two texts compare, and a text against a number raises
  TypeError, which ends the comparison of the whole column.
\<close>

fun type_name :: "cell \<Rightarrow> string" where
  "type_name (CStr s) = ''str''"
| "type_name (CInt i) = ''int''"
| "type_name _ = ''float''"

definition not_supported :: "string \<Rightarrow> cell \<Rightarrow> cell \<Rightarrow> error" where
  "not_supported opr x y =
     TypeError ([CHR 0x27] @ opr @ [CHR 0x27] @ '' not supported between instances of ''
                @ [CHR 0x27] @ type_name x @ [CHR 0x27] @ '' and ''
                @ [CHR 0x27] @ type_name y @ [CHR 0x27])"

definition less_than :: "cell \<Rightarrow> cell \<Rightarrow> error + bool" where
  "less_than x y =
     (if isnull x \<or> isnull y then Inr False
      else case cell_less x y of Some b \<Rightarrow> Inr b | None \<Rightarrow> Inl (not_supported ''<'' x y))"

definition greater_than :: "cell \<Rightarrow> cell \<Rightarrow> error + bool" where
  "greater_than x y =
     (if isnull x \<or> isnull y then Inr False
      else case cell_less y x of Some b \<Rightarrow> Inr b | None \<Rightarrow> Inl (not_supported ''>'' x y))"

fun sequence :: "(error + 'a) list \<Rightarrow> error + 'a list" where
  "sequence [] = Inr []"
| "sequence (x # xs) =
     (case x of
        Inl e \<Rightarrow> Inl e
      | Inr v \<Rightarrow> (case sequence xs of Inl e \<Rightarrow> Inl e | Inr vs \<Rightarrow> Inr (v # vs)))"

definition lt_scalar :: "series \<Rightarrow> cell \<Rightarrow> error + bool list" where
  "lt_scalar c k = sequence (map (\<lambda>x. less_than x k) (s_values c))"

definition gt_scalar :: "series \<Rightarrow> cell \<Rightarrow> error + bool list" where
  "gt_scalar c k = sequence (map (\<lambda>x. greater_than x k) (s_values c))"

definition gt_series :: "series \<Rightarrow> series \<Rightarrow> error + bool list" where
  "gt_series a b = sequence (map (\<lambda>(x, y). greater_than x y) (zip (s_values a) (s_values b)))"

definition index_tolist :: "bool list \<Rightarrow> dataframe \<Rightarrow> pyval" where
  "index_tolist bs df = PyList (map (\<lambda>i. PyInt (int i)) (select bs (df_index df)))"

subsection \<open>The checks\<close>

definition missing_values_of :: "dataframe \<Rightarrow> pyval" where
  "missing_values_of df =
     PyDict (map (\<lambda>c. (PyStr (s_name c), NpInt (int (isnull_sum c))))
                 (filter (\<lambda>c. isnull_sum c > 0) (df_columns df)))"

text \<open>\<^verbatim>\<open>isinstance(x, str) and x.strip().lower() in ["nan", "null", "", "none"]\<close>\<close>

fun sentinel :: "cell \<Rightarrow> bool" where
  "sentinel (CStr s) \<longleftrightarrow> lower (strip s) \<in> set [''nan'', ''null'', [], ''none'']"
| "sentinel _ \<longleftrightarrow> False"

definition invalid_values_of :: "dataframe \<Rightarrow> (pyval \<times> pyval) list" where
  "invalid_values_of df =
     fold (\<lambda>c d.
             (let invalid_mask = map sentinel (s_values c)
              in if mask_sum invalid_mask > 0
                 then dict_set d (PyStr (s_name c))
                        (PyList (map py_of_cell (select invalid_mask (s_values c))))
                 else d))
          (df_columns df) []"

text \<open>
  The IQR rule. The source fixes the fence multiplier to 1.5; the mask takes it as an
  argument so that fences of other widths can be compared with the source's.
\<close>

definition outlier_mask :: "real \<Rightarrow> series \<Rightarrow> bool list" where
  "outlier_mask k c =
     (case (quantile c (1/4), quantile c (3/4)) of
        (Some Q1, Some Q3) \<Rightarrow>
          (let IQR = Q3 - Q1
           in map (\<lambda>x. case num_of x of
                          None \<Rightarrow> False
                        | Some v \<Rightarrow> v < Q1 - k * IQR \<or> v > Q3 + k * IQR)
                  (s_values c))
      | _ \<Rightarrow> map (\<lambda>x. False) (s_values c))"

definition round_half_even :: "real \<Rightarrow> int" where
  "round_half_even x =
     (let f = \<lfloor>x\<rfloor>; d = x - of_int f
      in if d < 1/2 then f else if d > 1/2 then f + 1 else if even f then f else f + 1)"

definition py_round2 :: "real \<Rightarrow> real" where
  "py_round2 x = of_int (round_half_even (x * 100)) / 100"

definition outliers_of :: "dataframe \<Rightarrow> (pyval \<times> pyval) list" where
  "outliers_of df =
     fold (\<lambda>c d.
             (let outliers = select (outlier_mask (3/2) c) (s_values c)
              in if length outliers > 0
                 then dict_set d (PyStr (s_name c))
                        (PyDict
                          [(PyStr ''count'', PyInt (int (length outliers))),
                           (PyStr ''percentage'',
                              PyFloat (Fl (py_round2 (real (length outliers) / real (nrows df) * 100)))),
                           (PyStr ''values'', PyList (map py_of_cell (take 10 outliers)))])
                 else d))
          (select_dtypes_number df) []"

definition invalid_age_of :: "dataframe \<Rightarrow> error + pyval" where
  "invalid_age_of df =
     (case get_column df ''age'' of
        None \<Rightarrow> Inr (PyList [])
      | Some age \<Rightarrow>
          (case lt_scalar age (CInt 18) of
             Inl e \<Rightarrow> Inl e
           | Inr too_young \<Rightarrow>
               (case gt_scalar age (CInt 70) of
                  Inl e \<Rightarrow> Inl e
                | Inr too_old \<Rightarrow> Inr (index_tolist (map (\<lambda>(a, b). a \<or> b) (zip too_young too_old)) df))))"

definition exp_gt_age_of :: "dataframe \<Rightarrow> error + pyval option" where
  "exp_gt_age_of df =
     (case (get_column df ''age'', get_column df ''years_experience'') of
        (Some age, Some years_experience) \<Rightarrow>
          (case gt_series years_experience age of
             Inl e \<Rightarrow> Inl e
           | Inr bs \<Rightarrow> Inr (Some (index_tolist bs df)))
      | _ \<Rightarrow> Inr None)"

definition future_year_of :: "env \<Rightarrow> dataframe \<Rightarrow> error + pyval option" where
  "future_year_of env df =
     (case get_column df ''last_promotion_year'' of
        None \<Rightarrow> Inr None
      | Some last_promotion_year \<Rightarrow>
          (case gt_scalar last_promotion_year (CInt (current_year env)) of
             Inl e \<Rightarrow> Inl e
           | Inr bs \<Rightarrow> Inr (Some (index_tolist bs df))))"

definition negative_mask :: "series \<Rightarrow> bool list" where
  "negative_mask c = map (\<lambda>x. case num_of x of None \<Rightarrow> False | Some v \<Rightarrow> v < 0) (s_values c)"

definition add_negatives :: "dataframe \<Rightarrow> (pyval \<times> pyval) list \<Rightarrow> (pyval \<times> pyval) list" where
  "add_negatives df domain_issues =
     fold (\<lambda>c d.
             (let neg = negative_mask c
              in if mask_sum neg > 0
                 then dict_set d (PyStr (''negative_'' @ s_name c)) (index_tolist neg df)
                 else d))
          (select_dtypes_number df) domain_issues"

definition set_if_present :: "(pyval \<times> pyval) list \<Rightarrow> string \<Rightarrow> pyval option \<Rightarrow> (pyval \<times> pyval) list" where
  "set_if_present d k v = (case v of None \<Rightarrow> d | Some x \<Rightarrow> dict_set d (PyStr k) x)"

definition domain_rules :: "env \<Rightarrow> dataframe \<Rightarrow> error + pyval" where
  "domain_rules env df =
     (case invalid_age_of df of
        Inl e \<Rightarrow> Inl e
      | Inr invalid_age \<Rightarrow>
          (case exp_gt_age_of df of
             Inl e \<Rightarrow> Inl e
           | Inr exp_gt_age \<Rightarrow>
               (case future_year_of env df of
                  Inl e \<Rightarrow> Inl e
                | Inr future_year \<Rightarrow>
                    (let domain_issues = [(PyStr ''invalid_age'', invalid_age)];
                         domain_issues = set_if_present domain_issues ''exp_gt_age'' exp_gt_age;
                         domain_issues = set_if_present domain_issues ''future_year'' future_year
                     in Inr (PyDict (add_negatives df domain_issues))))))"

text \<open>The isolation forest sees the numeric columns row by row, nulls replaced by zero.\<close>

definition forest_input :: "dataframe \<Rightarrow> real list list" where
  "forest_input df =
     map (\<lambda>i. map (\<lambda>c. case num_of (s_values c ! i) of None \<Rightarrow> 0 | Some v \<Rightarrow> v)
                   (select_dtypes_number df))
         [0..<nrows df]"

definition multivariate :: "env \<Rightarrow> dataframe \<Rightarrow> error + pyval" where
  "multivariate env df =
     (if length (select_dtypes_number df) \<ge> 2 then
        (case isolation_forest env (forest_input df) of
           Inl e \<Rightarrow> Inl e
         | Inr anomaly_mask \<Rightarrow> Inr (index_tolist anomaly_mask df))
      else Inr (PyList []))"

subsection \<open>The node\<close>

text \<open>
  The body of the node's single \<^verbatim>\<open>try\<close> block: the checks run in the order of the source,
  and the first one that raises ends the body.
\<close>

definition detect_anomalies :: "env \<Rightarrow> dataframe \<Rightarrow> error + pyval" where
  "detect_anomalies env df =
     (let missing_values = missing_values_of df;
          dup_mask = duplicated_keep_false df;
          invalid_values = invalid_values_of df;
          outliers = outliers_of df
      in case domain_rules env df of
           Inl e \<Rightarrow> Inl e
         | Inr domain_anomalies \<Rightarrow>
             (case multivariate env df of
                Inl e \<Rightarrow> Inl e
              | Inr anomaly_indices \<Rightarrow>
                  Inr (PyDict
                    [(PyStr ''outliers'', PyDict outliers),
                     (PyStr ''invalid_values'', PyDict invalid_values),
                     (PyStr ''missing_values'', missing_values),
                     (PyStr ''domain_anomalies'', domain_anomalies),
                     (PyStr ''duplicates'', NpInt (int (mask_sum dup_mask))),
                     (PyStr ''rows_with_duplicates'', index_tolist dup_mask df),
                     (PyStr ''anomaly_indices'', anomaly_indices),
                     (PyStr ''summary'', PyStr ''Advanced anomaly detection completed.'')])))"

definition detect_anomalies_node :: "env \<Rightarrow> agent_state \<Rightarrow> agent_state" where
  "detect_anomalies_node env st =
     (case (case cleaned_data st of
              None \<Rightarrow> Inl (KeyError ''cleaned_data'')
            | Some df \<Rightarrow> detect_anomalies env df) of
        Inl e \<Rightarrow>
          st\<lparr>errors := errors st @ [''Anomaly detection error: '' @ str_of_error e]\<rparr>
      | Inr found \<Rightarrow>
          st\<lparr>anomalies := Some (convert_numpy found),
             status := ''anomaly_detection_completed''\<rparr>)"

section \<open>The graph and the endpoints\<close>

subsection \<open>The last three nodes\<close>

definition create_visualizations_node :: "env \<Rightarrow> agent_state \<Rightarrow> agent_state" where
  "create_visualizations_node env st =
     (case (case cleaned_data st of
              None \<Rightarrow> Inl (KeyError ''cleaned_data'')
            | Some df \<Rightarrow> render_charts env df (dataset_id st)) of
        Inl e \<Rightarrow> st\<lparr>errors := errors st @ [''Visualization error: '' @ str_of_error e]\<rparr>
      | Inr charts \<Rightarrow>
          st\<lparr>visualizations := visualizations st @ charts,
             status := ''visualizations_completed''\<rparr>)"

fun startswith :: "string \<Rightarrow> string \<Rightarrow> bool" where
  "startswith s [] = True"
| "startswith [] (p # ps) = False"
| "startswith (c # cs) (p # ps) = (c = p \<and> startswith cs ps)"

text \<open>\<^verbatim>\<open>sub in s\<close>\<close>

fun contains :: "string \<Rightarrow> string \<Rightarrow> bool" where
  "contains [] sub = (sub = [])"
| "contains (c # cs) sub = (startswith (c # cs) sub \<or> contains cs sub)"

definition quota_or_not_found :: "string \<Rightarrow> bool" where
  "quota_or_not_found error_msg \<longleftrightarrow>
     contains error_msg ''402'' \<or> contains error_msg ''Insufficient Balance''
     \<or> contains error_msg ''insufficient_quota'' \<or> contains error_msg ''404''
     \<or> contains error_msg ''Not Found''"

text \<open>
  The handler of \<^verbatim>\<open>generate_insights_node\<close> reads \<^verbatim>\<open>state["statistics"]\<close> and
  \<^verbatim>\<open>state["anomalies"]\<close> again for the fallback text: a missing key there raises out of the
  node, which is the \<open>Inl\<close> result.
\<close>

definition generate_insights_node :: "env \<Rightarrow> agent_state \<Rightarrow> error + agent_state" where
  "generate_insights_node env st =
     (case (case statistics st of
              None \<Rightarrow> Inl (KeyError ''statistics'')
            | Some stats \<Rightarrow>
                (case anomalies st of
                   None \<Rightarrow> Inl (KeyError ''anomalies'')
                 | Some found \<Rightarrow>
                     (case cleaning_report st of
                        None \<Rightarrow> Inl (KeyError ''cleaning_report'')
                      | Some report \<Rightarrow> llm_invoke env report stats found))) of
        Inr text \<Rightarrow> Inr (st\<lparr>insights := Some text, status := ''insights_completed''\<rparr>)
      | Inl e \<Rightarrow>
          (let error_msg = str_of_error e
           in if quota_or_not_found error_msg then
                (case statistics st of
                   None \<Rightarrow> Inl (KeyError ''statistics'')
                 | Some stats \<Rightarrow>
                     (case anomalies st of
                        None \<Rightarrow> Inl (KeyError ''anomalies'')
                      | Some found \<Rightarrow>
                          Inr (st\<lparr>insights := Some (mock_insights env stats found),
                                  status := ''insights_completed''\<rparr>)))
              else Inr (st\<lparr>errors := errors st @ [''Insights generation error: '' @ error_msg]\<rparr>)))"

definition generate_sql_node :: "env \<Rightarrow> agent_state \<Rightarrow> agent_state" where
  "generate_sql_node env st =
     (case (case cleaned_data st of
              None \<Rightarrow> Inl (KeyError ''cleaned_data'')
            | Some df \<Rightarrow> sql_text env df (filename st)) of
        Inl e \<Rightarrow> st\<lparr>errors := errors st @ [''SQL generation error: '' @ str_of_error e]\<rparr>
      | Inr queries \<Rightarrow> st\<lparr>sql_queries := Some queries, status := ''completed''\<rparr>)"

subsection \<open>\<^verbatim>\<open>analysis_graph.invoke\<close>\<close>

text \<open>
  \<^verbatim>\<open>state.py\<close> declares \<^verbatim>\<open>errors\<close> and \<^verbatim>\<open>visualizations\<close> with the reducer
  \<^verbatim>\<open>operator.add\<close>: the graph appends what a node returns under these keys to the value it
  holds, and takes every other key as the node returns it. The six nodes run in the order
  of the edges of \<^verbatim>\<open>graph.py\<close>.
\<close>

definition reduce_state :: "agent_state \<Rightarrow> agent_state \<Rightarrow> agent_state" where
  "reduce_state held returned =
     returned\<lparr>errors := errors held @ errors returned,
              visualizations := visualizations held @ visualizations returned\<rparr>"

definition invoke :: "env \<Rightarrow> agent_state \<Rightarrow> error + agent_state" where
  "invoke env initial_state =
     (let st = reduce_state initial_state (clean_data_node env initial_state);
          st = reduce_state st (generate_statistics_node st);
          st = reduce_state st (detect_anomalies_node env st);
          st = reduce_state st (create_visualizations_node env st)
      in case generate_insights_node env st of
           Inl e \<Rightarrow> Inl e
         | Inr returned \<Rightarrow>
             (let st = reduce_state st returned
              in Inr (reduce_state st (generate_sql_node env st))))"

subsection \<open>\<^verbatim>\<open>main.py\<close>: upload and analysis\<close>

record dataset =
  d_id :: int
  d_original_filename :: string
  d_file_path :: string
  d_rows_count :: nat
  d_columns_count :: nat

record analysis =
  a_status :: string
  a_error_message :: "string option"
  a_cleaned_data_info :: "pyval option"
  a_statistics :: "pyval option"
  a_anomalies :: "pyval option"
  a_insights :: "string option"
  a_sql_queries :: "string option"

definition accepted_name :: "string \<Rightarrow> bool" where
  "accepted_name n \<longleftrightarrow> endswith n ''.csv'' \<or> endswith n ''.xlsx'' \<or> endswith n ''.xls''"

text \<open>
  The endpoint's \<^verbatim>\<open>except Exception\<close> also catches the HTTPException of its own file-type
  check and raises it again as status 500.
\<close>

definition upload_file :: "env \<Rightarrow> string \<Rightarrow> error + dataset" where
  "upload_file env name =
     (case (if \<not> accepted_name name
            then Inl (HTTPException 400 ''Invalid file type. Please upload CSV or Excel files only.'')
            else
              (let unique_filename = timestamp env @ ''_'' @ name;
                   path = path_join (upload_dir env) unique_filename
               in case save_upload env path of
                    Some e \<Rightarrow> Inl e
                  | None \<Rightarrow>
                      (case (if endswith name ''.csv'' then read_csv env path
                             else read_excel env path) of
                         Inl e \<Rightarrow> Inl e
                       | Inr df \<Rightarrow>
                           Inr \<lparr>d_id = next_id env, d_original_filename = name,
                                d_file_path = path, d_rows_count = nrows df,
                                d_columns_count = ncols df\<rparr>))) of
        Inl e \<Rightarrow> Inl (HTTPException 500 (''Upload failed: '' @ str_of_error e))
      | Inr d \<Rightarrow> Inr d)"

fun join :: "string \<Rightarrow> string list \<Rightarrow> string" where
  "join sep [] = []"
| "join sep [x] = x"
| "join sep (x # y # ys) = x @ sep @ join sep (y # ys)"

definition initial_state :: "dataset \<Rightarrow> agent_state" where
  "initial_state d =
     \<lparr>dataset_id = d_id d, file_path = d_file_path d, filename = d_original_filename d,
      raw_data = None, cleaned_data = None, cleaning_report = None, statistics = None,
      anomalies = None, visualizations = [], insights = None, sql_queries = None,
      errors = [], status = ''processing''\<rparr>"

definition processing :: analysis where
  "processing =
     \<lparr>a_status = ''processing'', a_error_message = None, a_cleaned_data_info = None,
      a_statistics = None, a_anomalies = None, a_insights = None, a_sql_queries = None\<rparr>"

text \<open>
  \<^verbatim>\<open>analyze_dataset\<close> returns the analysis record as it is stored (none when the dataset is
  unknown) and the response: the HTTP error raised, or status and message.
\<close>

definition analyze_dataset :: "env \<Rightarrow> dataset option \<Rightarrow> analysis option \<times> (error + string \<times> string)" where
  "analyze_dataset env found =
     (case found of
        None \<Rightarrow> (None, Inl (HTTPException 404 ''Dataset not found''))
      | Some d \<Rightarrow>
          (case invoke env (initial_state d) of
             Inl e \<Rightarrow>
               (Some (processing\<lparr>a_status := ''failed'', a_error_message := Some (str_of_error e)\<rparr>),
                Inl (HTTPException 500 (''Analysis failed: '' @ str_of_error e)))
           | Inr result \<Rightarrow>
               (if errors result \<noteq> [] then
                  (let error_message = join ''; '' (errors result)
                   in (Some (processing\<lparr>a_status := ''failed'', a_error_message := Some error_message\<rparr>),
                       Inl (HTTPException 500 (''Analysis failed: '' @ error_message))))
                else
                  (Some (processing\<lparr>a_cleaned_data_info := cleaning_report result,
                                     a_statistics := statistics result,
                                     a_anomalies := anomalies result,
                                     a_insights := insights result,
                                     a_sql_queries := sql_queries result,
                                     a_status := ''completed''\<rparr>),
                   Inr (''completed'', ''Analysis completed successfully'')))))"

section \<open>Fixtures\<close>

text \<open>
  Concrete collaborators for the examples: readers that find the given frame at any path,
  a parser of signed decimal integers, a writer that succeeds, a forest that flags no row.
\<close>

fun digits_value :: "string \<Rightarrow> int \<Rightarrow> int option" where
  "digits_value [] acc = Some acc"
| "digits_value (c # cs) acc =
     (let n = (of_char c :: nat)
      in if 48 \<le> n \<and> n \<le> 57 then digits_value cs (10 * acc + int (n - 48)) else None)"

definition parse_decimal :: "string \<Rightarrow> number option" where
  "parse_decimal s =
     (case s of
        [] \<Rightarrow> None
      | c # cs \<Rightarrow>
          if c = CHR ''-'' then (if cs = [] then None else map_option (\<lambda>v. PInt (- v)) (digits_value cs 0))
          else map_option PInt (digits_value s 0))"

definition fixture_env :: "dataframe \<Rightarrow> env" where
  "fixture_env t =
     \<lparr>read_csv = (\<lambda>p. Inr t), read_excel = (\<lambda>p. Inr t), parse_number = parse_decimal,
      to_csv = (\<lambda>p df. None), isolation_forest = (\<lambda>rows. Inr (map (\<lambda>r. False) rows)),
      current_year = 2026, render_charts = (\<lambda>df i. Inr []),
      llm_invoke = (\<lambda>report stats found. Inr ''insights''),
      mock_insights = (\<lambda>stats found. ''mock insights''),
      sql_text = (\<lambda>df name. Inr ''sql''), save_upload = (\<lambda>p. None),
      upload_dir = ''./uploads'', timestamp = ''20260101_000000'', next_id = 1\<rparr>"

definition int_column :: "string \<Rightarrow> int list \<Rightarrow> series" where
  "int_column n xs = \<lparr>s_name = n, s_dtype = Int64, s_values = map CInt xs\<rparr>"

text \<open>The table of the end-to-end scenario.\<close>

definition scenario_table :: dataframe where
  "scenario_table =
     \<lparr>df_index = [0, 1, 2],
      df_columns = [int_column ''age'' [25, 25, 200],
                    int_column ''years_experience'' [3, 3, 1],
                    int_column ''salary'' [50000, 50000, -10]]\<rparr>"

definition scenario_dataset :: dataset where
  "scenario_dataset =
     \<lparr>d_id = 1, d_original_filename = ''staff.csv'',
      d_file_path = ''./uploads/20260101_000000_staff.csv'', d_rows_count = 3,
      d_columns_count = 3\<rparr>"

text \<open>A file \<^verbatim>\<open>a,b\<close> / \<^verbatim>\<open>1,\<close> / \<^verbatim>\<open>2,\<close>: its second column is read as float64 and holds no value.\<close>

definition empty_column_table :: dataframe where
  "empty_column_table =
     \<lparr>df_index = [0, 1],
      df_columns = [int_column ''a'' [1, 2],
                    \<lparr>s_name = ''b'', s_dtype = Float64, s_values = [CNaN, CNaN]\<rparr>]\<rparr>"



text \<open>A column of numbers written as text, with one placeholder among them.\<close>

definition placeholder_table :: dataframe where
  "placeholder_table =
     \<lparr>df_index = [0, 1, 2],
      df_columns = [\<lparr>s_name = ''score'', s_dtype = Object,
                     s_values = [CStr ''5'', CStr '' Null '', CStr ''7'']\<rparr>]\<rparr>"

text \<open>A column named \<^verbatim>\<open>age\<close> that holds words.\<close>

definition worded_age_table :: dataframe where
  "worded_age_table =
     \<lparr>df_index = [0, 1],
      df_columns = [\<lparr>s_name = ''age'', s_dtype = Object,
                     s_values = [CStr ''old'', CStr ''young'']\<rparr>]\<rparr>"

text \<open>Two numeric columns, the second one constant.\<close>

definition constant_column_table :: dataframe where
  "constant_column_table =
     \<lparr>df_index = [0, 1],
      df_columns = [int_column ''a'' [0, 2], int_column ''b'' [5, 5]]\<rparr>"

text \<open>The scenario's table as the Cleaner leaves it: the repeated row is gone, the labels stay.\<close>

definition scenario_cleaned :: dataframe where
  "scenario_cleaned =
     \<lparr>df_index = [0, 2],
      df_columns = [int_column ''age'' [25, 200],
                    int_column ''years_experience'' [3, 1],
                    int_column ''salary'' [50000, -10]]\<rparr>"


text \<open>A text column with a placeholder among its cells.\<close>

definition note_table :: dataframe where
  "note_table =
     \<lparr>df_index = [0, 1],
      df_columns = [\<lparr>s_name = ''note'', s_dtype = Object,
                     s_values = [CStr ''fine'', CStr '' NULL '']\<rparr>]\<rparr>"

text \<open>The placeholder table as the Cleaner leaves it: the column coerced, the gap filled with the median.\<close>

definition placeholder_cleaned :: dataframe where
  "placeholder_cleaned =
     \<lparr>df_index = [0, 1, 2],
      df_columns = [\<lparr>s_name = ''score'', s_dtype = Float64,
                     s_values = [CFloat 5, CFloat 6, CFloat 7]\<rparr>]\<rparr>"

section \<open>Reading a run\<close>

text \<open>The state that the Anomaly Detector receives: the graph after its first two nodes.\<close>

definition before_detection :: "env \<Rightarrow> agent_state \<Rightarrow> agent_state" where
  "before_detection env st0 =
     (let st = reduce_state st0 (clean_data_node env st0)
      in reduce_state st (generate_statistics_node st))"

text \<open>An entry of a nested dict, and an entry of the anomaly report of a finished run.\<close>

fun py_path :: "pyval \<Rightarrow> string list \<Rightarrow> pyval option" where
  "py_path v [] = Some v"
| "py_path v (k # ks) = (case py_get v k of None \<Rightarrow> None | Some w \<Rightarrow> py_path w ks)"

definition anomaly_entry :: "error + agent_state \<Rightarrow> string list \<Rightarrow> pyval option" where
  "anomaly_entry res ks =
     (case res of
        Inl e \<Rightarrow> None
      | Inr r \<Rightarrow> (case anomalies r of None \<Rightarrow> None | Some found \<Rightarrow> py_path found ks))"

text \<open>An entry of the statistics report that a state holds.\<close>

definition statistics_entry :: "agent_state \<Rightarrow> string list \<Rightarrow> pyval option" where
  "statistics_entry st ks = (case statistics st of None \<Rightarrow> None | Some stats \<Rightarrow> py_path stats ks)"


section \<open>The schema reader of \<^verbatim>\<open>text_to_sql_agent.py\<close>\<close>




section \<open>Reading the cleaned file back\<close>




section \<open>Properties of the Cleaner's report\<close>

lemma length_select_le: "length (select bs xs) \<le> length xs"
  unfolding select_def
  by (metis length_map length_filter_le length_zip min.cobounded2 le_trans)

lemma select_not_count:
  "length bs = length xs \<Longrightarrow> mask_sum bs + length (select (map Not bs) xs) = length xs"
  unfolding select_def mask_sum_def
  by (induction bs xs rule: list_induct2) auto

lemma length_seen_before: "length (seen_before seen rs) = length rs"
  by (induction rs arbitrary: seen) auto

lemma length_df_rows: "length (df_rows df) = nrows df"
  by (simp add: df_rows_def)

lemma nrows_impute: "nrows (impute df) = nrows df"
  by (simp add: nrows_def impute_def)

lemma ncols_impute: "ncols (impute df) = ncols df"
  by (simp add: ncols_def impute_def)

lemma nrows_drop_duplicates:
  "nrows (drop_duplicates df) + mask_sum (duplicated df) = nrows df"
proof (cases "df_empty df")
  case True
  then show ?thesis by (simp add: drop_duplicates_def duplicated_def mask_sum_def)
next
  case False
  have "length (seen_before [] (df_rows df)) = length (df_index df)"
    by (simp add: length_seen_before length_df_rows nrows_def)
  from select_not_count [OF this] False show ?thesis
    by (simp add: drop_duplicates_def duplicated_def df_filter_def nrows_def)
qed

text \<open>
  The node ends with status \<^verbatim>\<open>cleaning_completed\<close> exactly when nothing raised; the report it
  then publishes has this form, \<open>prepare env raw\<close> being the frame after steps 1 to 3.
\<close>

lemma clean_completed_report:
  assumes "status (clean_data_node env st) = ''cleaning_completed''"
  shows "\<exists>raw. load_data env (file_path st) = Inr raw \<and>
     cleaned_data (clean_data_node env st) = Some (impute (drop_duplicates (prepare env raw))) \<and>
     cleaning_report (clean_data_node env st) = Some (PyDict
       [(PyStr ''original_shape'', shape (prepare env raw)),
        (PyStr ''missing_values'',
           PyDict (map (\<lambda>c. (PyStr (s_name c), PyInt (int (isnull_sum c))))
                       (df_columns (prepare env raw)))),
        (PyStr ''duplicates'', PyInt (int (mask_sum (duplicated (prepare env raw))))),
        (PyStr ''data_types'',
           PyDict (map (\<lambda>c. (PyStr (s_name c), PyStr (str_of_dtype (s_dtype c))))
                       (df_columns (prepare env raw)))),
        (PyStr ''cleaned_shape'', shape (impute (drop_duplicates (prepare env raw)))),
        (PyStr ''rows_removed'',
           PyInt (int (nrows (prepare env raw))
                  - int (nrows (impute (drop_duplicates (prepare env raw)))))),
        (PyStr ''cleaned_file_path'', PyStr (''cleaned_'' @ basename (file_path st)))])"
  using assms
  by (auto simp: clean_data_node_def clean_failed_def report_before_def Let_def shape_def comp_def
           split: sum.splits option.splits)

lemma fixture_run_completed:
  "status (clean_data_node (fixture_env t) st) = ''cleaning_completed''"
  by (simp add: clean_data_node_def load_data_def fixture_env_def Let_def)

text \<open>
  Claim C7. Whenever the Cleaner publishes a report, its \<^verbatim>\<open>cleaned_shape\<close> has at most as
  many rows as its \<^verbatim>\<open>original_shape\<close>, and \<^verbatim>\<open>rows_removed\<close> is the difference of the two
  row counts.
\<close>

theorem cleaning_report_rows_invariant:
  assumes "status (clean_data_node env st) = ''cleaning_completed''"
  shows "\<exists>r orig cleaned k k'.
           cleaning_report (clean_data_node env st) = Some r
         \<and> py_get r ''original_shape'' = Some (PyTuple [PyInt (int orig), PyInt k])
         \<and> py_get r ''cleaned_shape'' = Some (PyTuple [PyInt (int cleaned), PyInt k'])
         \<and> cleaned \<le> orig
         \<and> py_get r ''rows_removed'' = Some (PyInt (int orig - int cleaned))"
proof -
  from clean_completed_report [OF assms] obtain raw r where
    r: "cleaning_report (clean_data_node env st) = Some r"
       "r = PyDict
       [(PyStr ''original_shape'', shape (prepare env raw)),
        (PyStr ''missing_values'',
           PyDict (map (\<lambda>c. (PyStr (s_name c), PyInt (int (isnull_sum c))))
                       (df_columns (prepare env raw)))),
        (PyStr ''duplicates'', PyInt (int (mask_sum (duplicated (prepare env raw))))),
        (PyStr ''data_types'',
           PyDict (map (\<lambda>c. (PyStr (s_name c), PyStr (str_of_dtype (s_dtype c))))
                       (df_columns (prepare env raw)))),
        (PyStr ''cleaned_shape'', shape (impute (drop_duplicates (prepare env raw)))),
        (PyStr ''rows_removed'',
           PyInt (int (nrows (prepare env raw))
                  - int (nrows (impute (drop_duplicates (prepare env raw)))))),
        (PyStr ''cleaned_file_path'', PyStr (''cleaned_'' @ basename (file_path st)))]"
    by blast
  have le: "nrows (impute (drop_duplicates (prepare env raw))) \<le> nrows (prepare env raw)"
    using nrows_drop_duplicates [of "prepare env raw"] by (simp add: nrows_impute)
  show ?thesis
    unfolding r using le by (simp add: shape_def)
qed

theorem cleaning_report_rows_invariant_witness:
  "status (clean_data_node (fixture_env scenario_table) (initial_state scenario_dataset))
     = ''cleaning_completed''
   \<and> (\<exists>r orig cleaned k k'.
           cleaning_report (clean_data_node (fixture_env scenario_table)
                              (initial_state scenario_dataset)) = Some r
         \<and> py_get r ''original_shape'' = Some (PyTuple [PyInt (int orig), PyInt k])
         \<and> py_get r ''cleaned_shape'' = Some (PyTuple [PyInt (int cleaned), PyInt k'])
         \<and> cleaned \<le> orig
         \<and> py_get r ''rows_removed'' = Some (PyInt (int orig - int cleaned)))"
proof -
  have h: "status (clean_data_node (fixture_env scenario_table) (initial_state scenario_dataset))
             = ''cleaning_completed''"
    by (rule fixture_run_completed)
  from h cleaning_report_rows_invariant [OF h] show ?thesis by blast
qed

text \<open>
  Claim C10. Whenever the Cleaner publishes a report, the \<^verbatim>\<open>duplicates\<close> count taken before
  deduplication (rows equal to an earlier row of the trimmed and coerced frame) and the
  \<^verbatim>\<open>rows_removed\<close> value recorded after it are the same number.
\<close>

theorem duplicates_equals_rows_removed:
  assumes "status (clean_data_node env st) = ''cleaning_completed''"
  shows "\<exists>r n.
           cleaning_report (clean_data_node env st) = Some r
         \<and> py_get r ''duplicates'' = Some (PyInt n)
         \<and> py_get r ''rows_removed'' = Some (PyInt n)"
proof -
  from clean_completed_report [OF assms] obtain raw r where
    r: "cleaning_report (clean_data_node env st) = Some r"
       "r = PyDict
       [(PyStr ''original_shape'', shape (prepare env raw)),
        (PyStr ''missing_values'',
           PyDict (map (\<lambda>c. (PyStr (s_name c), PyInt (int (isnull_sum c))))
                       (df_columns (prepare env raw)))),
        (PyStr ''duplicates'', PyInt (int (mask_sum (duplicated (prepare env raw))))),
        (PyStr ''data_types'',
           PyDict (map (\<lambda>c. (PyStr (s_name c), PyStr (str_of_dtype (s_dtype c))))
                       (df_columns (prepare env raw)))),
        (PyStr ''cleaned_shape'', shape (impute (drop_duplicates (prepare env raw)))),
        (PyStr ''rows_removed'',
           PyInt (int (nrows (prepare env raw))
                  - int (nrows (impute (drop_duplicates (prepare env raw)))))),
        (PyStr ''cleaned_file_path'', PyStr (''cleaned_'' @ basename (file_path st)))]"
    by blast
  have eq: "int (nrows (prepare env raw)) - int (nrows (impute (drop_duplicates (prepare env raw))))
            = int (mask_sum (duplicated (prepare env raw)))"
    using nrows_drop_duplicates [of "prepare env raw"] by (simp add: nrows_impute)
  show ?thesis
    unfolding r by (simp add: eq)
qed

theorem duplicates_equals_rows_removed_witness:
  "status (clean_data_node (fixture_env scenario_table) (initial_state scenario_dataset))
     = ''cleaning_completed''
   \<and> (\<exists>r n.
           cleaning_report (clean_data_node (fixture_env scenario_table)
                              (initial_state scenario_dataset)) = Some r
         \<and> py_get r ''duplicates'' = Some (PyInt n)
         \<and> py_get r ''rows_removed'' = Some (PyInt n))"
proof -
  have h: "status (clean_data_node (fixture_env scenario_table) (initial_state scenario_dataset))
             = ''cleaning_completed''"
    by (rule fixture_run_completed)
  from h duplicates_equals_rows_removed [OF h] show ?thesis by blast
qed

section \<open>How a run ends\<close>


lemma key_errors_not_quota:
  "\<not> quota_or_not_found (str_of_error (KeyError ''statistics''))"
  "\<not> quota_or_not_found (str_of_error (KeyError ''anomalies''))"
  "\<not> quota_or_not_found (str_of_error (KeyError ''cleaning_report''))"
  by code_simp+

lemma reduce_state_fields:
  "errors (reduce_state h r) = errors h @ errors r"
  "anomalies (reduce_state h r) = anomalies r"
  "cleaned_data (reduce_state h r) = cleaned_data r"
  "statistics (reduce_state h r) = statistics r"
  "cleaning_report (reduce_state h r) = cleaning_report r"
  by (simp_all add: reduce_state_def)

lemma clean_node_keeps_anomalies: "anomalies (clean_data_node env st) = anomalies st"
  by (simp add: clean_data_node_def clean_failed_def Let_def split: sum.splits option.splits)

lemma statistics_node_keeps:
  "anomalies (generate_statistics_node st) = anomalies st"
  "cleaned_data (generate_statistics_node st) = cleaned_data st"
  by (simp_all add: generate_statistics_node_def split: option.splits)

lemma visualizations_node_keeps:
  "anomalies (create_visualizations_node env st) = anomalies st"
  "cleaned_data (create_visualizations_node env st) = cleaned_data st"
  by (simp_all add: create_visualizations_node_def split: sum.splits option.splits)

lemma sql_node_keeps:
  "anomalies (generate_sql_node env st) = anomalies st"
  by (simp_all add: generate_sql_node_def split: sum.splits option.splits)

lemma insights_node_returns:
  "\<exists>r. generate_insights_node env st = Inr r \<and> anomalies r = anomalies st"
  using key_errors_not_quota
  by (auto simp: generate_insights_node_def Let_def split: sum.splits option.splits)

lemma detect_node_raised:
  assumes "cleaned_data st = Some df" and "detect_anomalies env df = Inl e"
  shows "detect_anomalies_node env st
           = st\<lparr>errors := errors st @ [''Anomaly detection error: '' @ str_of_error e]\<rparr>"
  using assms by (simp add: detect_anomalies_node_def)

lemma detect_node_returned:
  assumes "cleaned_data st = Some df" and "detect_anomalies env df = Inr found"
  shows "detect_anomalies_node env st
           = st\<lparr>anomalies := Some (convert_numpy found), status := ''anomaly_detection_completed''\<rparr>"
  using assms by (simp add: detect_anomalies_node_def)

lemma before_detection_fields:
  "cleaned_data (before_detection env st0) = cleaned_data (clean_data_node env st0)"
  "anomalies (before_detection env st0) = anomalies st0"
  by (simp_all add: before_detection_def Let_def reduce_state_fields statistics_node_keeps
        clean_node_keeps_anomalies)

lemma invoke_after_detection:
  "\<exists>r. invoke env st0 = Inr r
       \<and> anomalies r = anomalies (detect_anomalies_node env (before_detection env st0))
       \<and> set (errors (detect_anomalies_node env (before_detection env st0))) \<subseteq> set (errors r)"
proof -
  define s3 where "s3 = reduce_state (before_detection env st0)
                          (detect_anomalies_node env (before_detection env st0))"
  define s4 where "s4 = reduce_state s3 (create_visualizations_node env s3)"
  obtain r5 where r5: "generate_insights_node env s4 = Inr r5" "anomalies r5 = anomalies s4"
    using insights_node_returns by blast
  define s5 where "s5 = reduce_state s4 r5"
  have inv: "invoke env st0 = Inr (reduce_state s5 (generate_sql_node env s5))"
    using r5(1) unfolding s5_def s4_def s3_def before_detection_def invoke_def Let_def by simp
  have an: "anomalies (reduce_state s5 (generate_sql_node env s5))
              = anomalies (detect_anomalies_node env (before_detection env st0))"
    by (simp add: reduce_state_fields sql_node_keeps s5_def r5 s4_def visualizations_node_keeps s3_def)
  have er: "set (errors (detect_anomalies_node env (before_detection env st0)))
              \<subseteq> set (errors (reduce_state s5 (generate_sql_node env s5)))"
    by (auto simp: reduce_state_fields s5_def s4_def s3_def)
  from inv an er show ?thesis by blast
qed

section \<open>The end-to-end scenario\<close>


lemma scenario_clean_any_env:
  "impute (drop_duplicates (prepare env scenario_table)) = scenario_cleaned"
  by code_simp

lemma scenario_domain_any_env:
  "domain_rules env scenario_cleaned = Inr (PyDict
          [(PyStr ''invalid_age'', PyList [PyInt 2]),
           (PyStr ''exp_gt_age'', PyList []),
           (PyStr ''negative_salary'', PyList [PyInt 2])])"
  by code_simp

lemma scenario_checks:
  "outliers_of scenario_cleaned = []"
  "invalid_values_of scenario_cleaned = []"
  "missing_values_of scenario_cleaned = PyDict []"
  "forest_input scenario_cleaned = [[25, 3, 50000], [200, 1, -10]]"
  "length (select_dtypes_number scenario_cleaned) = 3"
  "mask_sum (duplicated_keep_false scenario_cleaned) = 0"
  "index_tolist (duplicated_keep_false scenario_cleaned) scenario_cleaned = PyList []"
  by code_simp+

lemma scenario_raw_checks:
  "mask_sum (duplicated_keep_false scenario_table) = 2"
  "index_tolist (duplicated_keep_false scenario_table) scenario_table = PyList [PyInt 0, PyInt 1]"
  "mask_sum (duplicated scenario_table) = 1"
  "outlier_mask (3/2) (int_column ''age'' [25, 25, 200]) = [False, False, False]"
  by code_simp+


lemma scenario_detect:
  assumes "isolation_forest env [[25, 3, 50000], [200, 1, -10]] = Inr flags"
  shows "detect_anomalies env scenario_cleaned = Inr (PyDict
       [(PyStr ''outliers'', PyDict []),
        (PyStr ''invalid_values'', PyDict []),
        (PyStr ''missing_values'', PyDict []),
        (PyStr ''domain_anomalies'',
         PyDict
          [(PyStr ''invalid_age'', PyList [PyInt 2]),
           (PyStr ''exp_gt_age'', PyList []),
           (PyStr ''negative_salary'', PyList [PyInt 2])]),
        (PyStr ''duplicates'', NpInt 0),
        (PyStr ''rows_with_duplicates'', PyList []),
        (PyStr ''anomaly_indices'', index_tolist flags scenario_cleaned),
        (PyStr ''summary'', PyStr ''Advanced anomaly detection completed.'')])"
  using assms
  by (simp add: detect_anomalies_def multivariate_def scenario_checks scenario_domain_any_env
        Let_def)

text \<open>
  Claim C4, as the code has it. For the table with columns age, years_experience, salary and
  rows [25,3,50000], [25,3,50000], [200,1,-10], run through the pipeline: the Anomaly
  Detector reads the cleaned table, from which the Cleaner has removed the second copy of
  the repeated row, so its duplicate census reports count 0 and no rows; the third row keeps
  its index label 2, which is what \<^verbatim>\<open>negative_salary\<close> and the age rule \<^verbatim>\<open>invalid_age\<close> hold;
  the IQR rule flags nothing. The count 2, rows 0 and 1, is what the census gives on the
  table before cleaning.
\<close>

theorem scenario_end_to_end:
  assumes "load_data env (d_file_path d) = Inr scenario_table"
      and "status (clean_data_node env (initial_state d)) = ''cleaning_completed''"
      and "isolation_forest env [[25, 3, 50000], [200, 1, -10]] = Inr flags"
  shows "anomaly_entry (invoke env (initial_state d)) [''duplicates''] = Some (PyInt 0)
       \<and> anomaly_entry (invoke env (initial_state d)) [''rows_with_duplicates''] = Some (PyList [])
       \<and> anomaly_entry (invoke env (initial_state d)) [''domain_anomalies'', ''negative_salary'']
           = Some (PyList [PyInt 2])
       \<and> anomaly_entry (invoke env (initial_state d)) [''domain_anomalies'', ''invalid_age'']
           = Some (PyList [PyInt 2])
       \<and> anomaly_entry (invoke env (initial_state d)) [''outliers''] = Some (PyDict [])
       \<and> mask_sum (duplicated_keep_false scenario_table) = 2
       \<and> index_tolist (duplicated_keep_false scenario_table) scenario_table
           = PyList [PyInt 0, PyInt 1]"
proof -
  from clean_completed_report [OF assms(2)] assms(1)
  have cleaned: "cleaned_data (clean_data_node env (initial_state d)) = Some scenario_cleaned"
    by (auto simp: initial_state_def scenario_clean_any_env)
  then have "cleaned_data (before_detection env (initial_state d)) = Some scenario_cleaned"
    by (simp add: before_detection_fields)
  from detect_node_returned [OF this scenario_detect [OF assms(3)]]
       invoke_after_detection [of env "initial_state d"]
  obtain r where r: "invoke env (initial_state d) = Inr r"
    "anomalies r = Some (convert_numpy (PyDict
       [(PyStr ''outliers'', PyDict []),
        (PyStr ''invalid_values'', PyDict []),
        (PyStr ''missing_values'', PyDict []),
        (PyStr ''domain_anomalies'',
         PyDict
          [(PyStr ''invalid_age'', PyList [PyInt 2]),
           (PyStr ''exp_gt_age'', PyList []),
           (PyStr ''negative_salary'', PyList [PyInt 2])]),
        (PyStr ''duplicates'', NpInt 0),
        (PyStr ''rows_with_duplicates'', PyList []),
        (PyStr ''anomaly_indices'', index_tolist flags scenario_cleaned),
        (PyStr ''summary'', PyStr ''Advanced anomaly detection completed.'')]))"
    by auto
  show ?thesis
    by (simp add: r anomaly_entry_def scenario_raw_checks)
qed

theorem scenario_end_to_end_witness:
  "load_data (fixture_env scenario_table) (d_file_path scenario_dataset) = Inr scenario_table
   \<and> status (clean_data_node (fixture_env scenario_table) (initial_state scenario_dataset))
       = ''cleaning_completed''
   \<and> isolation_forest (fixture_env scenario_table) [[25, 3, 50000], [200, 1, -10]]
       = Inr [False, False]
   \<and> anomaly_entry (invoke (fixture_env scenario_table) (initial_state scenario_dataset))
        [''duplicates''] = Some (PyInt 0)
   \<and> anomaly_entry (invoke (fixture_env scenario_table) (initial_state scenario_dataset))
        [''domain_anomalies'', ''negative_salary''] = Some (PyList [PyInt 2])
   \<and> anomaly_entry (invoke (fixture_env scenario_table) (initial_state scenario_dataset))
        [''domain_anomalies'', ''invalid_age''] = Some (PyList [PyInt 2])"
proof -
  have h1: "load_data (fixture_env scenario_table) (d_file_path scenario_dataset) = Inr scenario_table"
    by (simp add: load_data_def fixture_env_def)
  have h2: "status (clean_data_node (fixture_env scenario_table) (initial_state scenario_dataset))
       = ''cleaning_completed''"
    by (rule fixture_run_completed)
  have h3: "isolation_forest (fixture_env scenario_table) [[25, 3, 50000], [200, 1, -10]]
       = Inr [False, False]"
    by (simp add: fixture_env_def)
  from h1 h2 h3 scenario_end_to_end [OF h1 h2 h3] show ?thesis by simp
qed

text \<open>The run of the scenario does not report the duplicate count 2.\<close>

theorem scenario_duplicates_counterexample:
  "anomaly_entry (invoke (fixture_env scenario_table) (initial_state scenario_dataset))
     [''duplicates''] \<noteq> Some (PyInt 2)"
proof -
  have "cleaned_data (clean_data_node (fixture_env scenario_table) (initial_state scenario_dataset))
          = Some scenario_cleaned"
    by code_simp
  then have "cleaned_data (before_detection (fixture_env scenario_table) (initial_state scenario_dataset))
          = Some scenario_cleaned"
    by (simp add: before_detection_fields)
  moreover have "isolation_forest (fixture_env scenario_table) [[25, 3, 50000], [200, 1, -10]]
       = Inr [False, False]"
    by (simp add: fixture_env_def)
  ultimately obtain r where
    "invoke (fixture_env scenario_table) (initial_state scenario_dataset) = Inr r"
    "py_get (the (anomalies r)) ''duplicates'' = Some (PyInt 0)" "anomalies r \<noteq> None"
    using invoke_after_detection [of "fixture_env scenario_table" "initial_state scenario_dataset"]
      detect_node_returned scenario_detect
    by fastforce
  then show ?thesis
    by (auto simp: anomaly_entry_def split: option.splits)
qed

section \<open>Failures, file types and imputation\<close>


lemma raised_check_run:
  assumes "cleaned_data (clean_data_node env (initial_state d)) = Some df"
      and "detect_anomalies env df = Inl e"
  shows "\<exists>r. invoke env (initial_state d) = Inr r \<and> anomalies r = None
           \<and> (''Anomaly detection error: '' @ str_of_error e) \<in> set (errors r)"
proof -
  have c: "cleaned_data (before_detection env (initial_state d)) = Some df"
    using assms(1) by (simp add: before_detection_fields)
  have a: "anomalies (before_detection env (initial_state d)) = None"
    by (simp add: before_detection_fields initial_state_def)
  from invoke_after_detection [of env "initial_state d"] detect_node_raised [OF c assms(2)] a
  show ?thesis by auto
qed

lemma analyze_failed:
  assumes "invoke env (initial_state d) = Inr r" and "errors r \<noteq> []"
  shows "analyze_dataset env (Some d)
           = (Some (processing\<lparr>a_status := ''failed'', a_error_message := Some (join ''; '' (errors r))\<rparr>),
              Inl (HTTPException 500 (''Analysis failed: '' @ join ''; '' (errors r))))"
  using assms by (simp add: analyze_dataset_def Let_def)

text \<open>
  Claim C1, as the code has it. The checks of the Anomaly Detector share one \<^verbatim>\<open>try\<close>
  block. When a check raises, the node returns the state it received with one more entry
  in the error list and nothing else changed: no check contributes, no anomaly report is
  published. The run then ends with that error in its list, and \<^verbatim>\<open>analyze_dataset\<close>, which
  fails every run whose error list is not empty, stores the status \<^verbatim>\<open>failed\<close> and answers
  with HTTP status 500.
\<close>

theorem raised_check_fails_the_run:
  assumes "cleaned_data (clean_data_node env (initial_state d)) = Some df"
      and "detect_anomalies env df = Inl e"
  shows "detect_anomalies_node env (before_detection env (initial_state d))
           = (before_detection env (initial_state d))
               \<lparr>errors := errors (before_detection env (initial_state d))
                            @ [''Anomaly detection error: '' @ str_of_error e]\<rparr>
       \<and> (\<exists>r. invoke env (initial_state d) = Inr r \<and> anomalies r = None
            \<and> (''Anomaly detection error: '' @ str_of_error e) \<in> set (errors r))
       \<and> (\<exists>a detail. analyze_dataset env (Some d) = (Some a, Inl (HTTPException 500 detail))
            \<and> a_status a = ''failed'' \<and> a_anomalies a = None)"
proof -
  have "cleaned_data (before_detection env (initial_state d)) = Some df"
    using assms(1) by (simp add: before_detection_fields)
  note node = detect_node_raised [OF this assms(2)]
  from raised_check_run [OF assms] obtain r where
    r: "invoke env (initial_state d) = Inr r" "anomalies r = None"
       "(''Anomaly detection error: '' @ str_of_error e) \<in> set (errors r)"
    by blast
  then have "errors r \<noteq> []" by auto
  from analyze_failed [OF r(1) this] r node show ?thesis
    by (auto simp: processing_def)
qed

lemma worded_age_clean:
  "cleaned_data (clean_data_node (fixture_env worded_age_table) (initial_state scenario_dataset))
     = Some worded_age_table"
  by code_simp

lemma worded_age_detect:
  "detect_anomalies (fixture_env worded_age_table) worded_age_table
     = Inl (not_supported ''<'' (CStr ''old'') (CInt 18))"
  by code_simp

theorem raised_check_fails_the_run_witness:
  "cleaned_data (clean_data_node (fixture_env worded_age_table) (initial_state scenario_dataset))
     = Some worded_age_table
   \<and> detect_anomalies (fixture_env worded_age_table) worded_age_table
     = Inl (not_supported ''<'' (CStr ''old'') (CInt 18))
   \<and> (\<exists>r. invoke (fixture_env worded_age_table) (initial_state scenario_dataset) = Inr r
          \<and> anomalies r = None
          \<and> (''Anomaly detection error: '' @ str_of_error (not_supported ''<'' (CStr ''old'') (CInt 18)))
              \<in> set (errors r))
   \<and> (\<exists>a detail. analyze_dataset (fixture_env worded_age_table) (Some scenario_dataset)
                     = (Some a, Inl (HTTPException 500 detail))
          \<and> a_status a = ''failed'' \<and> a_anomalies a = None)"
  using worded_age_clean worded_age_detect
    raised_check_fails_the_run [OF worded_age_clean worded_age_detect]
  by simp

text \<open>
  A table whose \<^verbatim>\<open>age\<close> column holds words makes the age rule raise: the run is stored as
  failed, without an anomaly report.
\<close>

theorem raised_check_counterexample:
  "map_option a_status (fst (analyze_dataset (fixture_env worded_age_table) (Some scenario_dataset)))
     = Some ''failed''
   \<and> map_option a_anomalies (fst (analyze_dataset (fixture_env worded_age_table) (Some scenario_dataset)))
     = Some None"
proof -
  from raised_check_run [OF worded_age_clean worded_age_detect] obtain r where
    r: "invoke (fixture_env worded_age_table) (initial_state scenario_dataset) = Inr r"
    and m: "(''Anomaly detection error: ''
              @ str_of_error (not_supported ''<'' (CStr ''old'') (CInt 18))) \<in> set (errors r)"
    by blast
  from m have "errors r \<noteq> []" by auto
  from analyze_failed [OF r this] show ?thesis
    by (simp add: processing_def)
qed

text \<open>
  Claim C3 at a failing input. A float64 column without any value has the median NaN, and
  \<^verbatim>\<open>fillna(NaN)\<close> fills nothing: the cleaned table still holds the null cells, where the
  branch for the other columns falls back to \<^verbatim>\<open>'Unknown'\<close>.
\<close>

theorem all_null_numeric_column_stays_null:
  "cleaned_data (clean_data_node (fixture_env empty_column_table) (initial_state scenario_dataset))
     = Some empty_column_table
   \<and> map s_values (df_columns empty_column_table) = [[CInt 1, CInt 2], [CNaN, CNaN]]"
  by code_simp



section \<open>The IQR rule\<close>


lemma select_map_filter: "select (map P xs) xs = filter P xs"
  by (induction xs) (auto simp: select_def)

lemma map_of_dict_set: "map_of (dict_set d k v) k' = (if k' = k then Some v else map_of d k')"
  by (induction d k v rule: dict_set.induct) auto

lemma fold_dict_set_other:
  assumes "\<And>c. c \<in> set cs \<Longrightarrow> key c \<noteq> k"
  shows "map_of (fold (\<lambda>c d. if P c then dict_set d (key c) (val c) else d) cs d0) k = map_of d0 k"
  using assms by (induction cs arbitrary: d0) (auto simp: map_of_dict_set)

lemma fold_dict_set_lookup:
  assumes "distinct (map key cs)" and "c \<in> set cs"
  shows "map_of (fold (\<lambda>c d. if P c then dict_set d (key c) (val c) else d) cs d0) (key c)
           = (if P c then Some (val c) else map_of d0 (key c))"
  using assms
proof (induction cs arbitrary: d0)
  case Nil
  then show ?case by simp
next
  case (Cons a cs)
  show ?case
  proof (cases "c = a")
    case True
    from Cons.prems have "key a \<notin> key ` set cs" by simp
    then have "\<And>x. x \<in> set cs \<Longrightarrow> key x \<noteq> key a" by (metis imageI)
    from fold_dict_set_other [of cs key "key a" P val, OF this] True show ?thesis
      by (simp add: map_of_dict_set)
  next
    case False
    from False Cons.prems have cin: "c \<in> set cs" by simp
    from Cons.prems have d: "distinct (map key cs)" and na: "key a \<notin> key ` set cs"
      by simp_all
    from cin na have "key c \<noteq> key a" by (metis imageI)
    with Cons.IH [OF d cin] show ?thesis by (simp add: map_of_dict_set)
  qed
qed






lemma mask_sum_map: "mask_sum (map P xs) = length (filter P xs)"
  by (induction xs) (auto simp: mask_sum_def)






section \<open>Sentinel strings\<close>


lemma run_anomalies:
  assumes "cleaned_data (clean_data_node env (initial_state d)) = Some df"
      and "detect_anomalies env df = Inr found"
  shows "anomaly_entry (invoke env (initial_state d)) ks = py_path (convert_numpy found) ks"
proof -
  have c: "cleaned_data (before_detection env (initial_state d)) = Some df"
    using assms(1) by (simp add: before_detection_fields)
  from invoke_after_detection [of env "initial_state d"] detect_node_returned [OF c assms(2)]
  obtain r where "invoke env (initial_state d) = Inr r" "anomalies r = Some (convert_numpy found)"
    by auto
  then show ?thesis by (simp add: anomaly_entry_def)
qed

lemma invalid_values_lookup:
  assumes "distinct (map s_name (df_columns df))" and "c \<in> set (df_columns df)"
  shows "map_of (invalid_values_of df) (PyStr (s_name c))
           = (if filter sentinel (s_values c) = [] then None
              else Some (PyList (map py_of_cell (filter sentinel (s_values c)))))"
proof -
  have d: "distinct (map (\<lambda>c. PyStr (s_name c)) (df_columns df))"
  proof -
    from assms(1) have "distinct (map PyStr (map s_name (df_columns df)))"
      by (simp add: distinct_map inj_on_def)
    then show ?thesis by (simp add: comp_def)
  qed
  have "map_of (invalid_values_of df) (PyStr (s_name c))
          = (if mask_sum (map sentinel (s_values c)) > 0
             then Some (PyList (map py_of_cell (select (map sentinel (s_values c)) (s_values c))))
             else map_of [] (PyStr (s_name c)))"
    unfolding invalid_values_of_def Let_def
    by (rule fold_dict_set_lookup [OF d assms(2)])
  then show ?thesis
    by (simp add: mask_sum_map select_map_filter)
qed

lemma names_prepare: "map s_name (df_columns (prepare env raw)) = map s_name (df_columns raw)"
  by (simp add: prepare_def Let_def applymap_def dropna_all_def df_filter_def comp_def
        coerce_column_def to_numeric_def)

lemma names_drop_duplicates:
  "map s_name (df_columns (drop_duplicates df)) = map s_name (df_columns df)"
  by (simp add: drop_duplicates_def df_filter_def comp_def)

lemma names_impute: "map s_name (df_columns (impute df)) = map s_name (df_columns df)"
  by (simp add: impute_def comp_def impute_column_def fillna_def Let_def)


lemma set_select_subset: "set (select bs xs) \<subseteq> set xs"
  unfolding select_def by (auto dest: set_zip_rightD)

lemma coerce_cell_no_text: "\<not> is_str_cell (to_float (coerce_cell p x))" "\<not> is_str_cell (coerce_cell p x)"
  by (cases x; simp split: option.splits number.splits)+

lemma to_numeric_no_text: "x \<in> set (s_values (to_numeric p c)) \<Longrightarrow> \<not> is_str_cell x"
  by (auto simp: to_numeric_def Let_def coerce_cell_no_text split: if_splits)

lemma coerced_no_text:
  assumes "s_dtype c = Object" and "s_dtype (coerce_column env c) \<noteq> Object"
      and "x \<in> set (s_values (coerce_column env c))"
  shows "\<not> is_str_cell x"
  using assms to_numeric_no_text [of x "parse_number env" c]
  by (auto simp: coerce_column_def Let_def split: if_splits)

lemma prepare_column:
  assumes "j < length (df_columns raw)"
  shows "\<exists>c. s_dtype c = s_dtype (df_columns raw ! j)
           \<and> df_columns (prepare env raw) ! j = coerce_column env c"
  using assms
  by (intro exI [of _ "(df_columns raw ! j)
          \<lparr>s_values := map strip_cell
             (select (map (list_ex (\<lambda>x. \<not> isnull x)) (df_rows raw))
                (s_values (df_columns raw ! j)))\<rparr>"])
     (simp add: prepare_def Let_def applymap_def dropna_all_def df_filter_def)

lemma drop_duplicates_column:
  assumes "j < length (df_columns df)"
  shows "s_dtype (df_columns (drop_duplicates df) ! j) = s_dtype (df_columns df ! j)
       \<and> set (s_values (df_columns (drop_duplicates df) ! j)) \<subseteq> set (s_values (df_columns df ! j))"
  using assms set_select_subset [of "map Not (duplicated df)" "s_values (df_columns df ! j)"]
  by (auto simp: drop_duplicates_def df_filter_def)

lemma impute_numeric_no_text:
  assumes "s_dtype c \<noteq> Object" and "\<forall>x\<in>set (s_values c). \<not> is_str_cell x"
      and "x \<in> set (s_values (impute_column c))"
  shows "\<not> is_str_cell x"
proof -
  have "s_dtype c = Float64 \<or> s_dtype c = Int64" using assms(1) by (cases "s_dtype c") auto
  with assms(2,3) show ?thesis
    by (auto simp: impute_column_def fillna_def median_def split: option.splits if_splits)
qed

lemma coerced_column_cleaned_no_text:
  assumes "j < length (df_columns raw)"
      and "s_dtype (df_columns raw ! j) = Object"
      and "s_dtype (df_columns (prepare env raw) ! j) \<noteq> Object"
      and "x \<in> set (s_values (df_columns (impute (drop_duplicates (prepare env raw))) ! j))"
  shows "\<not> is_str_cell x"
proof -
  from prepare_column [OF assms(1), of env] obtain c where
    c: "s_dtype c = s_dtype (df_columns raw ! j)"
       "df_columns (prepare env raw) ! j = coerce_column env c"
    by blast
  have p: "\<forall>y\<in>set (s_values (df_columns (prepare env raw) ! j)). \<not> is_str_cell y"
    using coerced_no_text [of c env] c assms(2,3) by auto
  have len: "j < length (df_columns (prepare env raw))"
    using assms(1) names_prepare [of env raw] by (metis length_map)
  from drop_duplicates_column [OF len] p assms(3)
  have d: "s_dtype (df_columns (drop_duplicates (prepare env raw)) ! j) \<noteq> Object"
          "\<forall>y\<in>set (s_values (df_columns (drop_duplicates (prepare env raw)) ! j)). \<not> is_str_cell y"
    by auto
  have len': "j < length (df_columns (drop_duplicates (prepare env raw)))"
    using len names_drop_duplicates [of "prepare env raw"] by (metis length_map)
  have "df_columns (impute (drop_duplicates (prepare env raw))) ! j
          = impute_column (df_columns (drop_duplicates (prepare env raw)) ! j)"
    using len' by (simp add: impute_def)
  with impute_numeric_no_text [OF d] assms(4) show ?thesis by simp
qed

lemma not_text_not_sentinel: "\<not> is_str_cell x \<Longrightarrow> \<not> sentinel x"
  by (cases x) auto

text \<open>
  Claim C5, as the code has it. In the table the Anomaly Detector receives, every text cell
  whose trimmed, lower-cased text is one of "nan", "null", "", "none" is recorded in
  \<^verbatim>\<open>invalid_values\<close> under its column. The check looks at text cells only: a column that the
  Cleaner coerced to numeric holds no text when the Detector reads it (what did not parse
  became null and was imputed), and nothing is recorded for it.
\<close>

theorem sentinel_flags_text_cells_only:
  assumes "distinct (map s_name (df_columns df))" and "c \<in> set (df_columns df)"
      and "CStr s \<in> set (s_values c)"
      and "lower (strip s) \<in> set [''nan'', ''null'', [], ''none'']"
      and "distinct (map s_name (df_columns raw))" and "j < length (df_columns raw)"
      and "s_dtype (df_columns raw ! j) = Object"
      and "s_dtype (df_columns (prepare env raw) ! j) \<noteq> Object"
  shows "(\<exists>vs. map_of (invalid_values_of df) (PyStr (s_name c)) = Some (PyList vs) \<and> PyStr s \<in> set vs)
       \<and> map_of (invalid_values_of (impute (drop_duplicates (prepare env raw))))
                 (PyStr (s_name (df_columns raw ! j))) = None"
proof -
  have "sentinel (CStr s)" using assms(4) by simp
  with assms(3) have m: "CStr s \<in> set (filter sentinel (s_values c))" by simp
  from m have ne: "filter sentinel (s_values c) \<noteq> []"
    by (metis empty_iff empty_set)
  from m have "py_of_cell (CStr s) \<in> py_of_cell ` set (filter sentinel (s_values c))"
    by (rule imageI)
  then have "PyStr s \<in> set (map py_of_cell (filter sentinel (s_values c)))"
    by (simp only: set_map py_of_cell.simps)
  with invalid_values_lookup [OF assms(1,2)] ne have first:
    "\<exists>vs. map_of (invalid_values_of df) (PyStr (s_name c)) = Some (PyList vs) \<and> PyStr s \<in> set vs"
    by (simp del: sentinel.simps set_filter set_map)
  let ?cl = "impute (drop_duplicates (prepare env raw))"
  have names: "map s_name (df_columns ?cl) = map s_name (df_columns raw)"
    by (simp add: names_impute names_drop_duplicates names_prepare)
  then have dist: "distinct (map s_name (df_columns ?cl))" using assms(5) by simp
  from names have len: "j < length (df_columns ?cl)" using assms(6) by (metis length_map)
  then have mem: "df_columns ?cl ! j \<in> set (df_columns ?cl)" by simp
  from names len have nm: "s_name (df_columns ?cl ! j) = s_name (df_columns raw ! j)"
    by (metis assms(6) nth_map)
  have "filter sentinel (s_values (df_columns ?cl ! j)) = []"
    using coerced_column_cleaned_no_text [OF assms(6,7,8)] not_text_not_sentinel
    by (auto simp: filter_empty_conv simp del: sentinel.simps)
  with invalid_values_lookup [OF dist mem] nm
  have "map_of (invalid_values_of ?cl) (PyStr (s_name (df_columns raw ! j))) = None"
    by simp
  with first show ?thesis by blast
qed


lemma placeholder_clean:
  "cleaned_data (clean_data_node (fixture_env placeholder_table) (initial_state scenario_dataset))
     = Some placeholder_cleaned"
  by code_simp

lemma placeholder_detect:
  "detect_anomalies (fixture_env placeholder_table) placeholder_cleaned
     = Inr (PyDict
       [(PyStr ''outliers'', PyDict []),
        (PyStr ''invalid_values'', PyDict []),
        (PyStr ''missing_values'', PyDict []),
        (PyStr ''domain_anomalies'', PyDict [(PyStr ''invalid_age'', PyList [])]),
        (PyStr ''duplicates'', NpInt 0),
        (PyStr ''rows_with_duplicates'', PyList []),
        (PyStr ''anomaly_indices'', PyList []),
        (PyStr ''summary'', PyStr ''Advanced anomaly detection completed.'')])"
  by code_simp

text \<open>
  A column of numbers written as text with the cell " Null ": the Cleaner coerces the column
  and fills the cell with the median, and the run records no invalid value.
\<close>

theorem coerced_placeholder_counterexample:
  "cleaned_data (clean_data_node (fixture_env placeholder_table) (initial_state scenario_dataset))
     = Some placeholder_cleaned
   \<and> anomaly_entry (invoke (fixture_env placeholder_table) (initial_state scenario_dataset))
        [''invalid_values''] = Some (PyDict [])"
  by (simp add: placeholder_clean run_anomalies [OF placeholder_clean placeholder_detect])

theorem sentinel_flags_text_cells_only_witness:
  "distinct (map s_name (df_columns note_table))
   \<and> \<lparr>s_name = ''note'', s_dtype = Object, s_values = [CStr ''fine'', CStr '' NULL '']\<rparr>
        \<in> set (df_columns note_table)
   \<and> CStr '' NULL '' \<in> set (s_values \<lparr>s_name = ''note'', s_dtype = Object,
                                        s_values = [CStr ''fine'', CStr '' NULL '']\<rparr>)
   \<and> lower (strip '' NULL '') \<in> set [''nan'', ''null'', [], ''none'']
   \<and> distinct (map s_name (df_columns placeholder_table))
   \<and> 0 < length (df_columns placeholder_table)
   \<and> s_dtype (df_columns placeholder_table ! 0) = Object
   \<and> s_dtype (df_columns (prepare (fixture_env placeholder_table) placeholder_table) ! 0) \<noteq> Object
   \<and> (\<exists>vs. map_of (invalid_values_of note_table) (PyStr ''note'') = Some (PyList vs)
             \<and> PyStr '' NULL '' \<in> set vs)
   \<and> map_of (invalid_values_of (impute (drop_duplicates
                 (prepare (fixture_env placeholder_table) placeholder_table))))
        (PyStr ''score'') = None"
proof -
  have h1: "distinct (map s_name (df_columns note_table))"
    by (simp add: note_table_def)
  have h2: "\<lparr>s_name = ''note'', s_dtype = Object, s_values = [CStr ''fine'', CStr '' NULL '']\<rparr>
        \<in> set (df_columns note_table)"
    by (simp add: note_table_def)
  have h3: "CStr '' NULL '' \<in> set (s_values \<lparr>s_name = ''note'', s_dtype = Object,
                                        s_values = [CStr ''fine'', CStr '' NULL '']\<rparr>)"
    by simp
  have h4: "lower (strip '' NULL '') \<in> set [''nan'', ''null'', [], ''none'']"
    by code_simp
  have h5: "distinct (map s_name (df_columns placeholder_table))"
    by (simp add: placeholder_table_def)
  have h6: "0 < length (df_columns placeholder_table)"
    by (simp add: placeholder_table_def)
  have h7: "s_dtype (df_columns placeholder_table ! 0) = Object"
    by (simp add: placeholder_table_def)
  have h8: "s_dtype (df_columns (prepare (fixture_env placeholder_table) placeholder_table) ! 0) \<noteq> Object"
    by code_simp
  have n: "s_name (df_columns placeholder_table ! 0) = ''score''"
    by (simp add: placeholder_table_def)
  note t = sentinel_flags_text_cells_only [OF h1 h2 h3 h4 h5 h6 h7 h8]
  have c1: "\<exists>vs. map_of (invalid_values_of note_table) (PyStr ''note'') = Some (PyList vs)
             \<and> PyStr '' NULL '' \<in> set vs"
    using t [THEN conjunct1] by simp
  have c2: "map_of (invalid_values_of (impute (drop_duplicates
                 (prepare (fixture_env placeholder_table) placeholder_table))))
        (PyStr ''score'') = None"
    using t [THEN conjunct2] by (simp only: n)
  from h1 h2 h3 h4 h5 h6 h7 h8 c1 c2 show ?thesis by (intro conjI)
qed

section \<open>The correlation matrix\<close>


lemma cauchy_schwarz_list:
  fixes f g :: "'a \<Rightarrow> real"
  shows "(sum_list (map (\<lambda>p. f p * g p) ps))\<^sup>2
           \<le> sum_list (map (\<lambda>p. (f p)\<^sup>2) ps) * sum_list (map (\<lambda>p. (g p)\<^sup>2) ps)"
proof (induction ps)
  case Nil
  then show ?case by simp
next
  case (Cons p ps)
  define A where "A = sum_list (map (\<lambda>p. f p * g p) ps)"
  define X where "X = sum_list (map (\<lambda>p. (f p)\<^sup>2) ps)"
  define Y where "Y = sum_list (map (\<lambda>p. (g p)\<^sup>2) ps)"
  define a where "a = f p"
  define b where "b = g p"
  have X0: "0 \<le> X" unfolding X_def by (rule sum_list_nonneg) auto
  have Y0: "0 \<le> Y" unfolding Y_def by (rule sum_list_nonneg) auto
  have IH: "A\<^sup>2 \<le> X * Y" using Cons.IH by (simp add: A_def X_def Y_def)
  have "(2 * a * b * A)\<^sup>2 = 4 * (a\<^sup>2 * b\<^sup>2) * A\<^sup>2"
    by (simp add: power_mult_distrib)
  also have "\<dots> \<le> 4 * (a\<^sup>2 * b\<^sup>2) * (X * Y)"
    using IH by (intro mult_left_mono) auto
  also have "\<dots> \<le> (a\<^sup>2 * Y + b\<^sup>2 * X)\<^sup>2"
  proof -
    have "(a\<^sup>2 * Y + b\<^sup>2 * X)\<^sup>2 - 4 * (a\<^sup>2 * b\<^sup>2) * (X * Y) = (a\<^sup>2 * Y - b\<^sup>2 * X)\<^sup>2"
      by (simp add: power2_eq_square algebra_simps)
    moreover have "0 \<le> (a\<^sup>2 * Y - b\<^sup>2 * X)\<^sup>2" by simp
    ultimately show ?thesis by linarith
  qed
  finally have sq: "(2 * a * b * A)\<^sup>2 \<le> (a\<^sup>2 * Y + b\<^sup>2 * X)\<^sup>2" .
  have "0 \<le> a\<^sup>2 * Y + b\<^sup>2 * X" using X0 Y0 by simp
  with sq have "2 * a * b * A \<le> a\<^sup>2 * Y + b\<^sup>2 * X"
    by (rule power2_le_imp_le)
  then have "(a * b + A)\<^sup>2 \<le> (a\<^sup>2 + X) * (b\<^sup>2 + Y)"
    using IH by (simp add: power2_eq_square algebra_simps)
  then show ?case by (simp add: A_def X_def Y_def a_def b_def)
qed

lemma pearson_bounds:
  assumes "pearson ps = Fl r"
  shows "- 1 \<le> r \<and> r \<le> 1"
proof -
  define mx where "mx = sum_list (map fst ps) / real (length ps)"
  define my where "my = sum_list (map snd ps) / real (length ps)"
  define sx where "sx = sum_list (map (\<lambda>p. (fst p - mx)\<^sup>2) ps)"
  define sy where "sy = sum_list (map (\<lambda>p. (snd p - my)\<^sup>2) ps)"
  define cv where "cv = sum_list (map (\<lambda>p. (fst p - mx) * (snd p - my)) ps)"
  from assms have d: "sqrt (sx * sy) \<noteq> 0" and r: "r = cv / sqrt (sx * sy)"
    by (auto simp: pearson_def Let_def case_prod_unfold mx_def my_def sx_def sy_def cv_def
             split: if_splits)
  have "cv\<^sup>2 \<le> sx * sy"
    unfolding cv_def sx_def sy_def by (rule cauchy_schwarz_list)
  then have "sqrt (cv\<^sup>2) \<le> sqrt (sx * sy)" by (rule real_sqrt_le_mono)
  then have le: "\<bar>cv\<bar> \<le> sqrt (sx * sy)" by simp
  have "0 \<le> sqrt (sx * sy)" using le by linarith
  with d have pos: "0 < sqrt (sx * sy)" by (metis less_le)
  from le pos have "\<bar>cv / sqrt (sx * sy)\<bar> \<le> 1" by (simp add: divide_le_eq)
  then show ?thesis unfolding r by linarith
qed

lemma pair_valid_swap: "pair_valid ys xs = map (\<lambda>(a, b). (b, a)) (pair_valid xs ys)"
proof (induction xs arbitrary: ys)
  case Nil
  then show ?case by (simp add: pair_valid_def List.map_filter_simps)
next
  case (Cons x xs)
  show ?case
  proof (cases ys)
    case Nil
    then show ?thesis by (simp add: pair_valid_def List.map_filter_simps)
  next
    case (Cons y ys')
    with Cons.IH [of ys'] show ?thesis
      by (auto simp: pair_valid_def List.map_filter_simps split: option.splits)
  qed
qed

lemma pearson_swap: "pearson (map (\<lambda>(a, b). (b, a)) ps) = pearson ps"
  by (simp add: pearson_def Let_def comp_def case_prod_unfold mult.commute)

lemma corr_entry_symmetric: "corr_entry a b = corr_entry b a"
  unfolding corr_entry_def by (subst pair_valid_swap) (rule pearson_swap)

lemma corr_entry_bounds: "corr_entry a b = Fl r \<Longrightarrow> - 1 \<le> r \<and> r \<le> 1"
  unfolding corr_entry_def by (rule pearson_bounds)


lemma map_of_named:
  assumes "distinct (map s_name cols)" and "a \<in> set cols"
  shows "map_of (map (\<lambda>c. (PyStr (s_name c), f c)) cols) (PyStr (s_name a)) = Some (f a)"
  using assms by (induction cols) (auto simp: image_iff)

lemma convert_corr:
  "convert_numpy (corr cols)
     = PyDict (map (\<lambda>a. (PyStr (s_name a),
                          PyDict (map (\<lambda>b. (PyStr (s_name b), PyFloat (corr_entry b a))) cols)))
                   cols)"
  by (simp add: corr_def comp_def)

lemma statistics_correlations:
  assumes "2 \<le> length (select_dtypes_number df)"
  shows "py_get (convert_numpy (statistics_of df)) ''correlations''
           = Some (convert_numpy (corr (select_dtypes_number df)))"
  using assms by (auto simp: statistics_of_def Let_def)

lemma distinct_numeric_names:
  "distinct (map s_name (df_columns df)) \<Longrightarrow> distinct (map s_name (select_dtypes_number df))"
  by (simp add: select_dtypes_number_def distinct_map_filter)

lemma correlation_entry_reported:
  assumes "cleaned_data st = Some df"
      and "distinct (map s_name (df_columns df))"
      and "2 \<le> length (select_dtypes_number df)"
      and "a \<in> set (select_dtypes_number df)" and "b \<in> set (select_dtypes_number df)"
  shows "statistics_entry (generate_statistics_node st) [''correlations'', s_name a, s_name b]
           = Some (PyFloat (corr_entry b a))"
proof -
  note d = distinct_numeric_names [OF assms(2)]
  have "statistics (generate_statistics_node st) = Some (convert_numpy (statistics_of df))"
    using assms(1) by (simp add: generate_statistics_node_def)
  then show ?thesis
    by (simp add: statistics_entry_def statistics_correlations [OF assms(3)] convert_corr
          map_of_named [OF d assms(4)] map_of_named [OF d assms(5)])
qed

lemma correlation_keys:
  assumes "cleaned_data st = Some df" and "2 \<le> length (select_dtypes_number df)"
  shows "\<exists>m. statistics_entry (generate_statistics_node st) [''correlations''] = Some (PyDict m)
           \<and> map fst m = map (\<lambda>c. PyStr (s_name c)) (select_dtypes_number df)"
proof -
  have "statistics (generate_statistics_node st) = Some (convert_numpy (statistics_of df))"
    using assms(1) by (simp add: generate_statistics_node_def)
  then show ?thesis
    by (simp add: statistics_entry_def statistics_correlations [OF assms(2)] convert_corr comp_def)
qed

lemma pair_valid_fst: "p \<in> set (pair_valid xs ys) \<Longrightarrow> fst p \<in> set (numbers xs)"
proof (induction xs arbitrary: ys)
  case Nil
  then show ?case by (simp add: pair_valid_def List.map_filter_simps)
next
  case (Cons x xs)
  show ?case
  proof (cases ys)
    case Nil
    with Cons.prems show ?thesis by (simp add: pair_valid_def List.map_filter_simps)
  next
    case (Cons y ys')
    with Cons.prems Cons.IH [of ys'] show ?thesis
      by (auto simp: pair_valid_def numbers_def List.map_filter_simps split: option.splits)
  qed
qed

lemma pearson_constant_first:
  assumes "\<forall>p\<in>set ps. fst p = v"
  shows "pearson ps = Nan"
proof (cases "ps = []")
  case True
  then show ?thesis by (simp add: pearson_def)
next
  case False
  have s: "sum_list (map fst ps) = v * real (length ps)"
    using assms by (induction ps) (auto simp: algebra_simps)
  have m: "sum_list (map fst ps) / real (length ps) = v"
    using False by (simp add: s)
  have "sum_list (map (\<lambda>p. (fst p - v)\<^sup>2) ps) = 0"
    using assms by (induction ps) auto
  then show ?thesis
    by (simp add: pearson_def Let_def case_prod_unfold m)
qed

lemma constant_column_nan:
  assumes "\<forall>x\<in>set (numbers (s_values a)). x = v"
  shows "corr_entry a b = Nan"
  unfolding corr_entry_def
  by (rule pearson_constant_first [of _ v]) (use assms pair_valid_fst in blast)

text \<open>
  Claim C6, as the code has it. When the cleaned table has at least two numeric columns,
  the statistics report holds a Pearson correlation matrix whose keys are exactly the
  numeric columns; the matrix is symmetric and its numbers lie in [-1, 1]; an entry that is
  NaN because a column has no variance is emitted as NaN: \<^verbatim>\<open>convert_numpy\<close> turns NumPy
  scalars into Python ones and leaves NaN as it is.
\<close>

theorem correlations_keep_nan:
  assumes "cleaned_data st = Some df"
      and "distinct (map s_name (df_columns df))"
      and "2 \<le> length (select_dtypes_number df)"
      and "a \<in> set (select_dtypes_number df)" and "b \<in> set (select_dtypes_number df)"
  shows "(\<exists>m. statistics_entry (generate_statistics_node st) [''correlations''] = Some (PyDict m)
            \<and> map fst m = map (\<lambda>c. PyStr (s_name c)) (select_dtypes_number df))
       \<and> statistics_entry (generate_statistics_node st) [''correlations'', s_name a, s_name b]
           = Some (PyFloat (corr_entry b a))
       \<and> corr_entry b a = corr_entry a b
       \<and> (\<forall>r. corr_entry b a = Fl r \<longrightarrow> - 1 \<le> r \<and> r \<le> 1)
       \<and> (\<forall>v. (\<forall>x\<in>set (numbers (s_values a)). x = v) \<longrightarrow>
             statistics_entry (generate_statistics_node st) [''correlations'', s_name a, s_name b]
               = Some (PyFloat Nan))"
proof -
  note e = correlation_entry_reported [OF assms]
  have "corr_entry b a = Nan" if "\<forall>x\<in>set (numbers (s_values a)). x = v" for v
    using constant_column_nan [OF that, of b] corr_entry_symmetric [of a b] by simp
  with e correlation_keys [OF assms(1,3)] corr_entry_symmetric [of b a] corr_entry_bounds [of b a]
  show ?thesis by auto
qed

lemma constant_table_clean:
  "cleaned_data (clean_data_node (fixture_env constant_column_table) (initial_state scenario_dataset))
     = Some constant_column_table"
  by code_simp

lemma constant_table_columns:
  "distinct (map s_name (df_columns constant_column_table))"
  "2 \<le> length (select_dtypes_number constant_column_table)"
  "int_column ''a'' [0, 2] \<in> set (select_dtypes_number constant_column_table)"
  "int_column ''b'' [5, 5] \<in> set (select_dtypes_number constant_column_table)"
  "s_name (int_column ''a'' [0, 2]) = ''a''"
  "s_name (int_column ''b'' [5, 5]) = ''b''"
  "numbers (s_values (int_column ''b'' [5, 5])) = [5, 5]"
  by code_simp+

text \<open>With a constant column the emitted entry is the float NaN, not null.\<close>

theorem nan_correlation_counterexample:
  "statistics_entry
     (generate_statistics_node
        (clean_data_node (fixture_env constant_column_table) (initial_state scenario_dataset)))
     [''correlations'', ''b'', ''a''] = Some (PyFloat Nan)"
proof -
  have "corr_entry (int_column ''b'' [5, 5]) (int_column ''a'' [0, 2]) = Nan"
    by (rule constant_column_nan [of _ 5]) (simp add: constant_table_columns)
  then have "corr_entry (int_column ''a'' [0, 2]) (int_column ''b'' [5, 5]) = Nan"
    by (simp add: corr_entry_symmetric)
  with correlation_entry_reported [OF constant_table_clean constant_table_columns(1,2,4,3)]
  show ?thesis by (simp add: constant_table_columns)
qed


lemma corr_entry_identical:
  "corr_entry (int_column ''a'' [0, 2]) (int_column ''a'' [0, 2]) = Fl 1"
  by (simp add: corr_entry_def int_column_def pair_valid_def List.map_filter_simps pearson_def
        Let_def)

theorem correlations_keep_nan_witness:
  "cleaned_data (clean_data_node (fixture_env constant_column_table) (initial_state scenario_dataset))
     = Some constant_column_table
   \<and> distinct (map s_name (df_columns constant_column_table))
   \<and> 2 \<le> length (select_dtypes_number constant_column_table)
   \<and> int_column ''a'' [0, 2] \<in> set (select_dtypes_number constant_column_table)
   \<and> int_column ''b'' [5, 5] \<in> set (select_dtypes_number constant_column_table)
   \<and> numbers (s_values (int_column ''b'' [5, 5])) = [5, 5]
   \<and> statistics_entry
        (generate_statistics_node
           (clean_data_node (fixture_env constant_column_table) (initial_state scenario_dataset)))
        [''correlations'', ''b'', ''a''] = Some (PyFloat Nan)
   \<and> corr_entry (int_column ''a'' [0, 2]) (int_column ''a'' [0, 2]) = Fl 1
   \<and> statistics_entry
        (generate_statistics_node
           (clean_data_node (fixture_env constant_column_table) (initial_state scenario_dataset)))
        [''correlations'', ''a'', ''a''] = Some (PyFloat (Fl 1))
   \<and> - 1 \<le> (1 :: real) \<and> (1 :: real) \<le> 1"
proof -
  note c = constant_table_columns
  note t1 = correlations_keep_nan [OF constant_table_clean c(1,2,4,3)]
  note t2 = correlations_keep_nan [OF constant_table_clean c(1,2,3,3)]
  have n: "statistics_entry
        (generate_statistics_node
           (clean_data_node (fixture_env constant_column_table) (initial_state scenario_dataset)))
        [''correlations'', ''b'', ''a''] = Some (PyFloat Nan)"
    using t1 [THEN conjunct2, THEN conjunct2, THEN conjunct2, THEN conjunct2, THEN spec, of 5]
    by (simp add: c)
  have e: "statistics_entry
        (generate_statistics_node
           (clean_data_node (fixture_env constant_column_table) (initial_state scenario_dataset)))
        [''correlations'', ''a'', ''a''] = Some (PyFloat (Fl 1))"
    using t2 [THEN conjunct2, THEN conjunct1] by (simp add: c corr_entry_identical)
  have b: "- 1 \<le> (1 :: real) \<and> (1 :: real) \<le> 1"
    using t2 [THEN conjunct2, THEN conjunct2, THEN conjunct2, THEN conjunct1, THEN spec, of 1]
      corr_entry_identical
    by blast
  from constant_table_clean c(1,2,3,4,7) n corr_entry_identical e b
  show ?thesis by (intro conjI) (simp_all only:)
qed

section \<open>Running the Cleaner twice\<close>




lemma select_map: "select bs (map f xs) = map f (select bs xs)"
  by (simp add: select_def zip_map2 filter_map comp_def case_prod_unfold)

lemma select_all_true:
  assumes "length bs = length xs" and "\<forall>b\<in>set bs. b"
  shows "select bs xs = xs"
  using assms by (induction bs xs rule: list_induct2) (auto simp: select_def)

lemma length_select_eq:
  "length xs = length ys \<Longrightarrow> length (select bs xs) = length (select bs ys)"
proof (induction bs arbitrary: xs ys)
  case Nil
  then show ?case by (simp add: select_def)
next
  case (Cons b bs)
  then show ?case
    by (cases xs; cases ys) (auto simp: select_def)
qed

lemma select_nth:
  "select bs xs = map (nth xs) (select bs [0..<length xs])"
proof -
  have "select bs xs = select bs (map (nth xs) [0..<length xs])" by (simp add: map_nth)
  then show ?thesis by (simp only: select_map)
qed


lemma well_formed_df_filter:
  assumes "well_formed df"
  shows "well_formed (df_filter bs df)"
  using assms length_select_eq [of _ "df_index df" bs]
  by (auto simp: well_formed_def df_filter_def nrows_def list_all_iff)

lemma df_filter_all_true:
  assumes "well_formed df" and "length bs = nrows df" and "\<forall>b\<in>set bs. b"
  shows "df_filter bs df = df"
proof -
  have i: "select bs (df_index df) = df_index df"
    using assms(2,3) by (intro select_all_true) (simp_all add: nrows_def)
  have "map (\<lambda>c. c\<lparr>s_values := select bs (s_values c)\<rparr>) (df_columns df) = df_columns df"
  proof (rule map_idI)
    fix c assume "c \<in> set (df_columns df)"
    with assms(1) have "length (s_values c) = nrows df"
      by (simp add: well_formed_def list_all_iff)
    with assms(2,3) have "select bs (s_values c) = s_values c"
      by (intro select_all_true) simp_all
    then show "c\<lparr>s_values := select bs (s_values c)\<rparr> = c" by simp
  qed
  with i show ?thesis by (simp add: df_filter_def)
qed

lemma df_rows_filter:
  assumes "well_formed df"
  shows "df_rows (df_filter bs df) = select bs (df_rows df)"
proof -
  define idx where "idx = select bs [0..<nrows df]"
  have n': "nrows (df_filter bs df) = length idx"
    using select_nth [of bs "df_index df"] by (simp add: nrows_def df_filter_def idx_def)
  have col: "select bs (s_values c) = map (nth (s_values c)) idx" if "c \<in> set (df_columns df)" for c
  proof -
    from that assms have "length (s_values c) = nrows df"
      by (simp add: well_formed_def list_all_iff)
    with select_nth [of bs "s_values c"] show ?thesis by (simp add: idx_def)
  qed
  have row: "row_at (df_filter bs df) i = row_at df (idx ! i)" if "i < length idx" for i
    using that by (simp add: row_at_def df_filter_def comp_def col cong: map_cong)
  have "df_rows (df_filter bs df) = map (\<lambda>i. row_at df (idx ! i)) [0..<length idx]"
    by (simp add: df_rows_def n' row cong: map_cong)
  also have "\<dots> = map (row_at df) (map (nth idx) [0..<length idx])"
    by (simp add: comp_def)
  also have "\<dots> = map (row_at df) idx"
    by (simp only: map_nth)
  also have "\<dots> = select bs (df_rows df)"
    by (simp add: df_rows_def select_map idx_def)
  finally show ?thesis .
qed

lemma first_occurrences_distinct:
  "distinct (select (map Not (seen_before seen rs)) rs)
   \<and> set (select (map Not (seen_before seen rs)) rs) \<inter> set seen = {}"
proof (induction rs arbitrary: seen)
  case Nil
  then show ?case by (simp add: select_def)
next
  case (Cons r rs)
  have step: "select (map Not (seen_before seen (r # rs))) (r # rs)
          = (if r \<in> set seen then [] else [r]) @ select (map Not (seen_before (r # seen) rs)) rs"
    by (simp add: select_def)
  from Cons.IH [of "r # seen"] show ?case
    unfolding step by auto
qed

lemma seen_before_distinct:
  assumes "distinct rs" and "set rs \<inter> set seen = {}"
  shows "\<forall>b\<in>set (seen_before seen rs). \<not> b"
  using assms
proof (induction rs arbitrary: seen)
  case Nil
  then show ?case by simp
next
  case (Cons r rs)
  then have "distinct rs" "set rs \<inter> set (r # seen) = {}" "r \<notin> set seen" by auto
  with Cons.IH [of "r # seen"] show ?case by simp
qed

lemma drop_duplicates_idem:
  assumes "well_formed df"
  shows "drop_duplicates (drop_duplicates df) = drop_duplicates df"
proof (cases "df_empty df \<or> df_empty (drop_duplicates df)")
  case True
  then show ?thesis by (auto simp: drop_duplicates_def)
next
  case False
  define m where "m = map Not (seen_before [] (df_rows df))"
  define d where "d = df_filter m df"
  from False have d: "drop_duplicates df = d" and ne: "\<not> df_empty d"
    by (auto simp: drop_duplicates_def duplicated_def m_def d_def)
  have wf: "well_formed d" unfolding d_def by (rule well_formed_df_filter [OF assms])
  have rows: "df_rows d = select m (df_rows df)"
    unfolding d_def by (rule df_rows_filter [OF assms])
  have "distinct (df_rows d)"
    unfolding rows m_def using first_occurrences_distinct [of "[]" "df_rows df"] by simp
  then have f: "\<forall>b\<in>set (seen_before [] (df_rows d)). \<not> b"
    by (intro seen_before_distinct) simp_all
  have "df_filter (map Not (seen_before [] (df_rows d))) d = d"
    using f by (intro df_filter_all_true [OF wf]) (auto simp: length_seen_before length_df_rows)
  with ne have "drop_duplicates d = d"
    by (simp add: drop_duplicates_def duplicated_def)
  then show ?thesis by (simp only: d)
qed



























end
